(* ===== verification/Prelude.thy ===== *)
theory Prelude
  imports Main "HOL-Library.AList" "HOL-Library.Sublist"
begin

text \<open>
  Shared vocabulary of the development: the named collections the component
  theories add their rewrite rules to, the type names of the model, and the
  generic facts on association lists and string prefixes that the cache and the
  fetch layer use. Nothing here models code of the repository.
\<close>

named_theorems frame_simps
  "what an operation leaves unchanged in the state it is given"
named_theorems codec_simps
  "decoding an encoded value gives the value back"

text \<open>
  A JavaScript \<open>Map<string, string>\<close> is an association list: \<open>Map.prototype.set\<close>
  on a present key overwrites the value in place, on a fresh key appends the
  entry, which is \<open>AList.update\<close>; \<open>delete\<close> is \<open>AList.delete\<close>; iteration
  visits the keys in insertion order.
\<close>

type_synonym js_map = "(string \<times> string) list"

subsection \<open>Association lists\<close>

lemma map_of_filter_keys:
  "map_of (filter (\<lambda>(k, v). P k) al) k = (if P k then map_of al k else None)"
  by (induction al) auto

lemma delete_filter_keys:
  "AList.delete k (filter (\<lambda>(k', v). P k') al) = filter (\<lambda>(k', v). P k' \<and> k' \<noteq> k) al"
  by (induction al) (auto simp: AList.delete_eq)

text \<open>
  Deleting, key by key, every key of a list that satisfies a test is the same as
  filtering the entries once: the loop of \<open>clearCacheByEndpoint\<close> against its
  one-line specification.
\<close>

lemma fold_delete_filter:
  "fold (\<lambda>k m. if P k then AList.delete k m else m) ks (filter (\<lambda>(k, v). Q k) al)
   = filter (\<lambda>(k, v). Q k \<and> \<not> (P k \<and> k \<in> set ks)) al"
proof (induction ks arbitrary: Q)
  case Nil
  then show ?case by simp
next
  case (Cons k ks)
  show ?case
  proof (cases "P k")
    case True
    then have "fold (\<lambda>k m. if P k then AList.delete k m else m) (k # ks)
        (filter (\<lambda>(k', v). Q k') al)
      = fold (\<lambda>k m. if P k then AList.delete k m else m) ks
        (filter (\<lambda>(k', v). Q k' \<and> k' \<noteq> k) al)"
      by (simp add: delete_filter_keys)
    also have "\<dots> = filter (\<lambda>(k', v). (Q k' \<and> k' \<noteq> k) \<and> \<not> (P k' \<and> k' \<in> set ks)) al"
      by (rule Cons.IH)
    finally show ?thesis using True
      by (auto intro!: filter_cong)
  next
    case False
    then show ?thesis using Cons.IH [of Q]
      by (auto intro!: filter_cong)
  qed
qed

lemma distinct_keys_filter:
  "distinct (map fst al) \<Longrightarrow> distinct (map fst (filter P al))"
  by (induction al) (auto simp: image_iff)

subsection \<open>String prefixes\<close>

text \<open>\<open>String.prototype.startsWith\<close> is \<open>prefix\<close> of \<open>HOL-Library.Sublist\<close>.\<close>

lemma prefix_append_self [simp]: "prefix xs (xs @ ys)"
  by simp

text \<open>Splitting a string at the first occurrence of a separator it holds once.\<close>

lemma takeWhile_sep [simp]: "c \<notin> set xs \<Longrightarrow> takeWhile (\<lambda>x. x \<noteq> c) (xs @ c # ys) = xs"
  by (induction xs) auto

lemma dropWhile_sep [simp]: "c \<notin> set xs \<Longrightarrow> dropWhile (\<lambda>x. x \<noteq> c) (xs @ c # ys) = c # ys"
  by (induction xs) auto

lemma takeWhile_no_sep [simp]: "c \<notin> set xs \<Longrightarrow> takeWhile (\<lambda>x. x \<noteq> c) xs = xs"
  by (induction xs) auto

lemma dropWhile_no_sep [simp]: "c \<notin> set xs \<Longrightarrow> dropWhile (\<lambda>x. x \<noteq> c) xs = []"
  by (induction xs) auto

end
