(* ===== verification/Json.thy ===== *)
theory Json
  imports Prelude
begin

text \<open>
  The JSON values the layer moves around, and \<open>JSON.stringify\<close> and
  \<open>JSON.parse\<close> on them. The cache key of a request serialises its parameter
  object, and the cache stores every response serialised and parses it back on a
  hit (useCustomFetch.ts, lines 22--33), so both functions are part of what the
  cache promises. They are ECMAScript built-ins, not code of the repository:
  modelled from the standard for the values the program sends. Numbers are
  integers (the program sends page numbers and receives nothing else it reads);
  an object is the list of its members in insertion order.
\<close>

datatype json =
    JNull
  | JBool bool
  | JNum int
  | JStr string
  | JArr "json list"
  | JObj "(string \<times> json) list"

subsection \<open>Printing\<close>

definition hex_digit :: "nat \<Rightarrow> char" where
  "hex_digit d = (if d < 10 then char_of (48 + d) else char_of (87 + d))"

text \<open>
  \<open>JSON.stringify\<close> of a string: the quote and the backslash are escaped, the
  five control characters with a short escape use it, every other character
  below \<open>0x20\<close> becomes \<open>\u00xx\<close> in lower-case hex, everything else is copied.
\<close>

definition escape_char :: "char \<Rightarrow> string" where
  "escape_char c =
     (if c = CHR 0x22 then [CHR 0x5C, CHR 0x22]
      else if c = CHR 0x5C then [CHR 0x5C, CHR 0x5C]
      else if c = CHR 0x08 then [CHR 0x5C, CHR ''b'']
      else if c = CHR 0x0C then [CHR 0x5C, CHR ''f'']
      else if c = CHR 0x0A then [CHR 0x5C, CHR ''n'']
      else if c = CHR 0x0D then [CHR 0x5C, CHR ''r'']
      else if c = CHR 0x09 then [CHR 0x5C, CHR ''t'']
      else if of_char c < (32::nat)
        then [CHR 0x5C, CHR ''u'', CHR ''0'', CHR ''0'',
              hex_digit (of_char c div 16), hex_digit (of_char c mod 16)]
      else [c])"

definition quote_string :: "string \<Rightarrow> string" where
  "quote_string s = CHR 0x22 # concat (map escape_char s) @ [CHR 0x22]"

fun show_nat :: "nat \<Rightarrow> string" where
  "show_nat n = (if n < 10 then [char_of (48 + n)] else show_nat (n div 10) @ [char_of (48 + n mod 10)])"

definition show_int :: "int \<Rightarrow> string" where
  "show_int i = (if i < 0 then CHR ''-'' # show_nat (nat (- i)) else show_nat (nat i))"

fun join_commas :: "string list \<Rightarrow> string" where
  "join_commas [] = []"
| "join_commas [x] = x"
| "join_commas (x # y # zs) = x @ CHR '','' # join_commas (y # zs)"

fun stringify :: "json \<Rightarrow> string" where
  "stringify JNull = ''null''"
| "stringify (JBool b) = (if b then ''true'' else ''false'')"
| "stringify (JNum i) = show_int i"
| "stringify (JStr s) = quote_string s"
| "stringify (JArr xs) = CHR ''['' # join_commas (map stringify xs) @ [CHR '']'']"
| "stringify (JObj ms) =
     CHR ''{'' # join_commas (map (\<lambda>kv. quote_string (fst kv) @ CHR '':'' # stringify (snd kv)) ms)
       @ [CHR ''}'']"

subsection \<open>Parsing\<close>

definition is_ws :: "char \<Rightarrow> bool" where
  "is_ws c \<longleftrightarrow> c = CHR '' '' \<or> c = CHR 0x09 \<or> c = CHR 0x0A \<or> c = CHR 0x0D"

definition skip_ws :: "string \<Rightarrow> string" where
  "skip_ws = dropWhile is_ws"

definition is_digit :: "char \<Rightarrow> bool" where
  "is_digit c \<longleftrightarrow> 48 \<le> (of_char c :: nat) \<and> (of_char c :: nat) \<le> 57"

definition hex_val :: "char \<Rightarrow> nat option" where
  "hex_val c =
     (if is_digit c then Some (of_char c - 48 :: nat)
      else if 97 \<le> (of_char c :: nat) \<and> (of_char c :: nat) \<le> 102 then Some (of_char c - 87)
      else if 65 \<le> (of_char c :: nat) \<and> (of_char c :: nat) \<le> 70 then Some (of_char c - 55)
      else None)"

definition hex4 :: "char \<Rightarrow> char \<Rightarrow> char \<Rightarrow> char \<Rightarrow> nat option" where
  "hex4 a b c d =
     (case (hex_val a, hex_val b, hex_val c, hex_val d) of
        (Some w, Some x, Some y, Some z) \<Rightarrow> Some (((w * 16 + x) * 16 + y) * 16 + z)
      | _ \<Rightarrow> None)"

text \<open>The characters a backslash may introduce, other than \<open>u\<close>.\<close>

definition unescape :: "char \<Rightarrow> char option" where
  "unescape e =
     (if e = CHR 0x22 then Some (CHR 0x22)
      else if e = CHR 0x5C then Some (CHR 0x5C)
      else if e = CHR ''/'' then Some (CHR ''/'')
      else if e = CHR ''b'' then Some (CHR 0x08)
      else if e = CHR ''f'' then Some (CHR 0x0C)
      else if e = CHR ''n'' then Some (CHR 0x0A)
      else if e = CHR ''r'' then Some (CHR 0x0D)
      else if e = CHR ''t'' then Some (CHR 0x09)
      else None)"

text \<open>
  The body of a string literal, after its opening quote: the characters up to the
  closing quote, and what follows it. A raw control character, a bad escape and
  a missing closing quote are syntax errors; a \<open>\uXXXX\<close> escape beyond the
  one-byte characters of the model is one too.
\<close>

fun parse_str :: "string \<Rightarrow> (string \<times> string) option" where
  "parse_str [] = None"
| "parse_str (c # s) =
     (if c = CHR 0x22 then Some ([], s)
      else if c = CHR 0x5C then
        (case s of
           [] \<Rightarrow> None
         | e # s' \<Rightarrow>
             (case unescape e of
                Some d \<Rightarrow> map_option (apfst (Cons d)) (parse_str s')
              | None \<Rightarrow>
                  (if e = CHR ''u'' then
                     (case s' of
                        a # b # c # d # s'' \<Rightarrow>
                          (case hex4 a b c d of
                             Some v \<Rightarrow>
                               (if v < 256 then map_option (apfst (Cons (char_of v))) (parse_str s'')
                                else None)
                           | None \<Rightarrow> None)
                      | _ \<Rightarrow> None)
                   else None)))
      else if of_char c < (32::nat) then None
      else map_option (apfst (Cons c)) (parse_str s))"

definition digit_val :: "char \<Rightarrow> nat" where
  "digit_val c = of_char c - 48"

definition nat_of_digits :: "string \<Rightarrow> nat" where
  "nat_of_digits ds = foldl (\<lambda>acc d. 10 * acc + digit_val d) 0 ds"

text \<open>
  An unsigned integer: at least one digit, no leading zero, and no fraction or
  exponent after it (those are the non-integral numbers the model leaves out).
\<close>

definition parse_uint :: "string \<Rightarrow> (nat \<times> string) option" where
  "parse_uint s =
     (let ds = takeWhile is_digit s; r = dropWhile is_digit s in
      if ds = [] then None
      else if hd ds = CHR ''0'' \<and> tl ds \<noteq> [] then None
      else if r \<noteq> [] \<and> hd r \<in> {CHR ''.'', CHR ''e'', CHR ''E''} then None
      else Some (nat_of_digits ds, r))"

definition parse_number :: "string \<Rightarrow> (json \<times> string) option" where
  "parse_number s =
     (case s of
        c # r \<Rightarrow>
          if c = CHR ''-'' then map_option (\<lambda>(n, r'). (JNum (- int n), r')) (parse_uint r)
          else map_option (\<lambda>(n, r'). (JNum (int n), r')) (parse_uint s)
      | [] \<Rightarrow> None)"

text \<open>
  Values, array elements and object members, by recursive descent. The fuel
  argument bounds the nesting and the number of elements; \<open>json_parse\<close> gives
  one unit per character of its input, which is always enough
  (\<open>parse_value_stringify\<close> below).
\<close>

fun parse_value :: "nat \<Rightarrow> string \<Rightarrow> (json \<times> string) option"
and parse_elems :: "nat \<Rightarrow> string \<Rightarrow> (json list \<times> string) option"
and parse_members :: "nat \<Rightarrow> string \<Rightarrow> ((string \<times> json) list \<times> string) option" where
  "parse_value 0 s = None"
| "parse_value (Suc n) s =
     (case skip_ws s of
        [] \<Rightarrow> None
      | c # r \<Rightarrow>
          if c = CHR ''n'' then (if take 3 r = ''ull'' then Some (JNull, drop 3 r) else None)
          else if c = CHR ''t'' then (if take 3 r = ''rue'' then Some (JBool True, drop 3 r) else None)
          else if c = CHR ''f'' then (if take 4 r = ''alse'' then Some (JBool False, drop 4 r) else None)
          else if c = CHR 0x22 then map_option (apfst JStr) (parse_str r)
          else if c = CHR ''['' then
            (if take 1 (skip_ws r) = '']'' then Some (JArr [], drop 1 (skip_ws r))
             else map_option (apfst JArr) (parse_elems n r))
          else if c = CHR ''{'' then
            (if take 1 (skip_ws r) = ''}'' then Some (JObj [], drop 1 (skip_ws r))
             else map_option (apfst JObj) (parse_members n r))
          else parse_number (c # r))"
| "parse_elems 0 s = None"
| "parse_elems (Suc n) s =
     (case parse_value n s of
        None \<Rightarrow> None
      | Some (v, r) \<Rightarrow>
          (case skip_ws r of
             [] \<Rightarrow> None
           | c # r' \<Rightarrow>
               if c = CHR '','' then map_option (apfst (Cons v)) (parse_elems n r')
               else if c = CHR '']'' then Some ([v], r')
               else None))"
| "parse_members 0 s = None"
| "parse_members (Suc n) s =
     (case skip_ws s of
        [] \<Rightarrow> None
      | c # r \<Rightarrow>
          if c \<noteq> CHR 0x22 then None
          else
            (case parse_str r of
               None \<Rightarrow> None
             | Some (k, r1) \<Rightarrow>
                 (case skip_ws r1 of
                    [] \<Rightarrow> None
                  | c1 # r2 \<Rightarrow>
                      if c1 \<noteq> CHR '':'' then None
                      else
                        (case parse_value n r2 of
                           None \<Rightarrow> None
                         | Some (v, r3) \<Rightarrow>
                             (case skip_ws r3 of
                                [] \<Rightarrow> None
                              | c3 # r4 \<Rightarrow>
                                  if c3 = CHR '','' then map_option (apfst (Cons (k, v))) (parse_members n r4)
                                  else if c3 = CHR ''}'' then Some ([(k, v)], r4)
                                  else None)))))"

definition json_parse :: "string \<Rightarrow> json option" where
  "json_parse s =
     (case parse_value (Suc (length s)) s of
        Some (v, r) \<Rightarrow> (if skip_ws r = [] then Some v else None)
      | None \<Rightarrow> None)"

subsection \<open>Measures and delimiters used by the round trip\<close>

text \<open>The fuel a value needs: one unit per node and per element.\<close>

fun jsize :: "json \<Rightarrow> nat" where
  "jsize (JArr xs) = Suc (sum_list (map jsize xs) + length xs)"
| "jsize (JObj ms) = Suc (sum_list (map (\<lambda>kv. jsize (snd kv)) ms) + length ms)"
| "jsize _ = 1"

definition num_stop :: "string \<Rightarrow> bool" where
  "num_stop rest =
     (case rest of [] \<Rightarrow> True | c # _ \<Rightarrow> \<not> is_digit c \<and> c \<notin> {CHR ''.'', CHR ''e'', CHR ''E''})"

text \<open>A serialised value starts with a character that is neither white space nor a closing bracket.\<close>

definition value_start :: "char \<Rightarrow> bool" where
  "value_start c \<longleftrightarrow> \<not> is_ws c \<and> c \<noteq> CHR '']'' \<and> c \<noteq> CHR ''}''"

definition member_string :: "string \<times> json \<Rightarrow> string" where
  "member_string kv = quote_string (fst kv) @ CHR '':'' # stringify (snd kv)"

subsection \<open>Round trip\<close>

declare show_nat.simps [simp del]

lemma show_nat_small: "n < 10 \<Longrightarrow> show_nat n = [char_of (48 + n)]"
  by (simp add: show_nat.simps)

lemma show_nat_large: "\<not> n < 10 \<Longrightarrow> show_nat n = show_nat (n div 10) @ [char_of (48 + n mod 10)]"
  by (simp add: show_nat.simps [of n])

lemma digit_char: "d < 10 \<Longrightarrow> is_digit (char_of (48 + d)) \<and> digit_val (char_of (48 + d)) = d"
  by (simp add: is_digit_def digit_val_def)

lemma show_nat_ne: "show_nat n \<noteq> []"
  by (cases "n < 10") (simp_all add: show_nat_small show_nat_large)

lemma show_nat_digits: "c \<in> set (show_nat n) \<Longrightarrow> is_digit c"
proof (induction n rule: show_nat.induct)
  case (1 n)
  then show ?case
    by (cases "n < 10") (auto simp: show_nat_small show_nat_large digit_char)
qed

lemma nat_of_digits_snoc: "nat_of_digits (xs @ [c]) = 10 * nat_of_digits xs + digit_val c"
  by (simp add: nat_of_digits_def)

lemma nat_of_show_nat: "nat_of_digits (show_nat n) = n"
proof (induction n rule: show_nat.induct)
  case (1 n)
  show ?case
  proof (cases "n < 10")
    case True
    then show ?thesis by (simp add: show_nat_small nat_of_digits_def digit_char)
  next
    case False
    with "1.IH" show ?thesis
      by (simp add: show_nat_large nat_of_digits_snoc digit_char)
  qed
qed

lemma show_nat_hd: "hd (show_nat n) = CHR ''0'' \<Longrightarrow> n = 0"
proof (induction n rule: show_nat.induct)
  case (1 n)
  show ?case
  proof (cases "n < 10")
    case True
    with "1.prems" have "of_char (char_of (48 + n)) = (of_char (CHR ''0'') :: nat)"
      by (simp add: show_nat_small)
    with True show ?thesis by simp
  next
    case False
    with "1.prems" have "hd (show_nat (n div 10)) = CHR ''0''"
      by (simp add: show_nat_large show_nat_ne)
    with False "1.IH" show ?thesis by simp
  qed
qed

lemma parse_uint_show_nat:
  assumes "num_stop rest"
  shows "parse_uint (show_nat n @ rest) = Some (n, rest)"
proof -
  have tw: "takeWhile is_digit (show_nat n @ rest) = show_nat n"
    and dw: "dropWhile is_digit (show_nat n @ rest) = rest"
    using assms show_nat_digits [of _ n]
    by (auto simp: takeWhile_append2 dropWhile_append2 num_stop_def split: list.splits)
  have "\<not> (hd (show_nat n) = CHR ''0'' \<and> tl (show_nat n) \<noteq> [])"
    using show_nat_hd [of n] by (auto simp: show_nat_small)
  with assms show ?thesis
    by (auto simp: parse_uint_def tw dw show_nat_ne nat_of_show_nat num_stop_def
        split: list.splits)
qed

lemma hex_val_hex_digit: "d < 16 \<Longrightarrow> hex_val (hex_digit d) = Some d"
  by (auto simp: hex_val_def hex_digit_def is_digit_def)

lemma parse_str_escape:
  "parse_str (escape_char c @ t) = map_option (apfst (Cons c)) (parse_str t)"
proof -
  consider "c = CHR 0x22" | "c = CHR 0x5C" | "c = CHR 0x08" | "c = CHR 0x0C" | "c = CHR 0x0A"
    | "c = CHR 0x0D" | "c = CHR 0x09"
    | "c \<notin> {CHR 0x22, CHR 0x5C, CHR 0x08, CHR 0x0C, CHR 0x0A, CHR 0x0D, CHR 0x09}" "of_char c < (32::nat)"
    | "c \<notin> {CHR 0x22, CHR 0x5C, CHR 0x08, CHR 0x0C, CHR 0x0A, CHR 0x0D, CHR 0x09}" "\<not> of_char c < (32::nat)"
    by blast
  then show ?thesis
  proof cases
    case 8
    let ?o = "of_char c :: nat"
    have "hex4 (CHR ''0'') (CHR ''0'') (hex_digit (?o div 16)) (hex_digit (?o mod 16)) = Some ?o"
      using 8 by (simp add: hex4_def hex_val_hex_digit) (simp add: hex_val_def is_digit_def)
    with 8 show ?thesis
      by (simp add: escape_char_def unescape_def)
  qed (simp_all add: escape_char_def unescape_def)
qed

lemma parse_str_quoted: "parse_str (concat (map escape_char s) @ CHR 0x22 # rest) = Some (s, rest)"
  by (induction s) (simp_all add: parse_str_escape)

lemma skip_ws_Cons: "\<not> is_ws c \<Longrightarrow> skip_ws (c # t) = c # t"
  by (simp add: skip_ws_def)

lemma skip_ws_punct [simp]:
  "skip_ws (CHR '','' # t) = CHR '','' # t" "skip_ws (CHR '']'' # t) = CHR '']'' # t"
  "skip_ws (CHR ''}'' # t) = CHR ''}'' # t" "skip_ws (CHR '':'' # t) = CHR '':'' # t"
  "skip_ws (CHR 0x22 # t) = CHR 0x22 # t" "skip_ws [] = []"
  "skip_ws (CHR ''['' # t) = CHR ''['' # t" "skip_ws (CHR ''{'' # t) = CHR ''{'' # t"
  by (simp_all add: skip_ws_def is_ws_def)

lemma digit_value_start: "is_digit c \<Longrightarrow> value_start c \<and> c \<notin> {CHR ''n'', CHR ''t'', CHR ''f'', CHR 0x22, CHR ''['', CHR ''{'', CHR ''-''}"
  by (auto simp: is_digit_def value_start_def is_ws_def)

lemma show_nat_Cons: "\<exists>c t. show_nat n = c # t \<and> is_digit c"
  using show_nat_ne [of n] show_nat_digits [of _ n] by (cases "show_nat n") auto

lemma stringify_Cons: "\<exists>c t. stringify v = c # t \<and> value_start c"
proof (cases v)
  case (JNum i)
  then show ?thesis using show_nat_Cons [of "nat i"] digit_value_start
    by (auto simp: show_int_def value_start_def is_ws_def)
qed (auto simp: value_start_def is_ws_def quote_string_def)

lemma join_commas_Cons:
  "join_commas (x # xs) = x @ (if xs = [] then [] else CHR '','' # join_commas xs)"
  by (cases xs) simp_all

lemma num_stop_punct [simp]:
  "num_stop []" "num_stop (CHR '','' # t)" "num_stop (CHR '']'' # t)" "num_stop (CHR ''}'' # t)"
  by (simp_all add: num_stop_def is_digit_def)

lemma parse_elems_join:
  assumes "\<And>x n rest. x \<in> set xs \<Longrightarrow> jsize x \<le> n \<Longrightarrow> num_stop rest \<Longrightarrow>
             parse_value n (stringify x @ rest) = Some (x, rest)"
    and "xs \<noteq> []" and "sum_list (map jsize xs) + length xs \<le> n"
  shows "parse_elems n (join_commas (map stringify xs) @ CHR '']'' # rest) = Some (xs, rest)"
  using assms
proof (induction xs arbitrary: n)
  case Nil
  then show ?case by simp
next
  case (Cons x xs)
  then obtain m where n: "n = Suc m" and sz: "jsize x \<le> m" "sum_list (map jsize xs) + length xs \<le> m"
    by (cases n) auto
  show ?case
  proof (cases "xs = []")
    case True
    with Cons.prems(1) sz have "parse_value m (stringify x @ CHR '']'' # rest) = Some (x, CHR '']'' # rest)"
      by simp
    with True n show ?thesis by simp
  next
    case False
    let ?r = "join_commas (map stringify xs) @ CHR '']'' # rest"
    from Cons.prems(1) sz have "parse_value m (stringify x @ CHR '','' # ?r) = Some (x, CHR '','' # ?r)"
      by simp
    moreover from Cons.IH [OF _ False sz(2)] Cons.prems(1) have "parse_elems m ?r = Some (xs, rest)"
      by simp
    ultimately show ?thesis using False n by (simp add: join_commas_Cons)
  qed
qed

lemma member_string_append:
  "member_string (k, v) @ t = CHR 0x22 # concat (map escape_char k) @ CHR 0x22 # CHR '':'' # stringify v @ t"
  by (simp add: member_string_def quote_string_def)

lemma parse_members_join:
  assumes "\<And>kv n rest. kv \<in> set ms \<Longrightarrow> jsize (snd kv) \<le> n \<Longrightarrow> num_stop rest \<Longrightarrow>
             parse_value n (stringify (snd kv) @ rest) = Some (snd kv, rest)"
    and "ms \<noteq> []" and "sum_list (map (\<lambda>kv. jsize (snd kv)) ms) + length ms \<le> n"
  shows "parse_members n (join_commas (map member_string ms) @ CHR ''}'' # rest) = Some (ms, rest)"
  using assms
proof (induction ms arbitrary: n)
  case Nil
  then show ?case by simp
next
  case (Cons kv ms)
  obtain k v where kv: "kv = (k, v)" by fastforce
  from Cons.prems obtain m where n: "n = Suc m" and sz: "jsize v \<le> m"
      "sum_list (map (\<lambda>kv. jsize (snd kv)) ms) + length ms \<le> m"
    by (cases n) (auto simp: kv)
  have key: "parse_str (concat (map escape_char k) @ CHR 0x22 # t) = Some (k, t)" for t
    by (rule parse_str_quoted)
  show ?case
  proof (cases "ms = []")
    case True
    with Cons.prems(1) sz have "parse_value m (stringify v @ CHR ''}'' # rest) = Some (v, CHR ''}'' # rest)"
      by (simp add: kv)
    with True n kv key show ?thesis by (simp add: member_string_append)
  next
    case False
    let ?r = "join_commas (map member_string ms) @ CHR ''}'' # rest"
    from Cons.prems(1) [of "(k, v)" m] sz have "parse_value m (stringify v @ CHR '','' # ?r) = Some (v, CHR '','' # ?r)"
      by (simp add: kv)
    moreover from Cons.IH [OF _ False sz(2)] Cons.prems(1) have "parse_members m ?r = Some (ms, rest)"
      by simp
    ultimately show ?thesis using False n kv key
      by (simp add: join_commas_Cons member_string_append)
  qed
qed

lemma stringify_JObj_members:
  "stringify (JObj ms) = CHR ''{'' # join_commas (map member_string ms) @ [CHR ''}'']"
proof -
  have "member_string = (\<lambda>kv. quote_string (fst kv) @ CHR '':'' # stringify (snd kv))"
    by (simp add: fun_eq_iff member_string_def)
  then show ?thesis by simp
qed

lemma join_commas_value_start:
  "xs \<noteq> [] \<Longrightarrow> \<exists>c t. join_commas (map stringify xs) @ r = c # t \<and> value_start c"
  using stringify_Cons [of "hd xs"] by (cases xs) (auto simp: join_commas_Cons)

lemma parse_value_stringify:
  "jsize v \<le> n \<Longrightarrow> num_stop rest \<Longrightarrow> parse_value n (stringify v @ rest) = Some (v, rest)"
proof (induction v arbitrary: n rest rule: stringify.induct)
  case 1
  then show ?case by (cases n) (simp_all add: is_ws_def skip_ws_def)
next
  case (2 b)
  then show ?case by (cases n) (simp_all add: is_ws_def skip_ws_def)
next
  case (3 i)
  then obtain m where n: "n = Suc m" by (cases n) auto
  show ?case
  proof (cases "i < 0")
    case True
    with "3.prems" n show ?thesis
      by (simp add: show_int_def skip_ws_def is_ws_def parse_number_def parse_uint_show_nat)
  next
    case False
    obtain c t where ct: "show_nat (nat i) = c # t" and d: "is_digit c"
      using show_nat_Cons by blast
    from digit_value_start [OF d] have "value_start c"
        and nc: "c \<notin> {CHR ''n'', CHR ''t'', CHR ''f'', CHR 0x22, CHR ''['', CHR ''{'', CHR ''-''}"
      by auto
    then have "skip_ws (c # t @ rest) = c # t @ rest"
      by (simp add: skip_ws_Cons value_start_def)
    moreover have "parse_uint (c # t @ rest) = Some (nat i, rest)"
      using parse_uint_show_nat [OF "3.prems"(2), of "nat i"] ct by simp
    ultimately show ?thesis using False n nc ct
      by (simp add: show_int_def parse_number_def)
  qed
next
  case (4 s)
  then show ?case
    by (cases n) (simp_all add: quote_string_def parse_str_quoted)
next
  case (5 xs)
  then obtain m where n: "n = Suc m" and sz: "sum_list (map jsize xs) + length xs \<le> m"
    by (cases n) auto
  show ?case
  proof (cases "xs = []")
    case True
    with n show ?thesis by simp
  next
    case False
    let ?r = "join_commas (map stringify xs) @ CHR '']'' # rest"
    obtain c t where ct: "?r = c # t" and vs: "value_start c"
      using join_commas_value_start [OF False] by blast
    from vs have "skip_ws ?r = ?r" and "take 1 (skip_ws ?r) \<noteq> '']''"
      by (simp_all add: ct skip_ws_Cons value_start_def)
    moreover have "parse_elems m ?r = Some (xs, rest)"
      by (rule parse_elems_join [OF "5.IH" False sz]) simp_all
    ultimately show ?thesis using n by simp
  qed
next
  case (6 ms)
  then obtain m where n: "n = Suc m"
      and sz: "sum_list (map (\<lambda>kv. jsize (snd kv)) ms) + length ms \<le> m"
    by (cases n) auto
  show ?case
  proof (cases "ms = []")
    case True
    with n show ?thesis by simp
  next
    case False
    let ?r = "join_commas (map member_string ms) @ CHR ''}'' # rest"
    obtain k v ms' where ms: "ms = (k, v) # ms'"
      using False by (cases ms) auto
    have "take 1 (skip_ws ?r) \<noteq> ''}''"
      by (simp add: ms join_commas_Cons member_string_append)
    moreover have "parse_members m ?r = Some (ms, rest)"
      by (rule parse_members_join [OF "6.IH" False sz]) simp_all
    ultimately show ?thesis using n by (simp add: stringify_JObj_members del: stringify.simps(6))
  qed
qed

lemma length_join_commas: "length (join_commas xs) = sum_list (map length xs) + (length xs - 1)"
  by (induction xs rule: join_commas.induct) simp_all

lemma jsize_le_length: "jsize v \<le> length (stringify v)"
proof (induction v rule: stringify.induct)
  case (3 i)
  then show ?case using show_nat_ne [of "nat i"] by (simp add: show_int_def Suc_le_eq)
next
  case (5 xs)
  have "sum_list (map jsize xs) \<le> sum_list (map (\<lambda>x. length (stringify x)) xs)"
    using "5.IH" by (rule sum_list_mono)
  then show ?case by (simp add: length_join_commas comp_def)
next
  case (6 ms)
  have "sum_list (map (\<lambda>kv. jsize (snd kv)) ms)
        \<le> sum_list (map (\<lambda>kv. length (quote_string (fst kv) @ CHR '':'' # stringify (snd kv))) ms)"
  proof (rule sum_list_mono)
    fix kv assume "kv \<in> set ms"
    then have "jsize (snd kv) \<le> length (stringify (snd kv))" by (rule "6.IH")
    then show "jsize (snd kv) \<le> length (quote_string (fst kv) @ CHR '':'' # stringify (snd kv))"
      by simp
  qed
  moreover have "length ms \<le> sum_list (map (\<lambda>kv. length (quote_string (fst kv) @ CHR '':'' # stringify (snd kv))) ms)"
    using sum_list_mono [of ms "\<lambda>_. 1" "\<lambda>kv. length (quote_string (fst kv) @ CHR '':'' # stringify (snd kv))"]
    by (simp add: sum_list_triv)
  ultimately show ?case by (simp add: length_join_commas comp_def)
qed (simp_all add: quote_string_def)

theorem json_parse_stringify [simp, codec_simps]: "json_parse (stringify v) = Some v"
proof -
  have "jsize v \<le> Suc (length (stringify v))"
    using jsize_le_length [of v] by simp
  from parse_value_stringify [OF this, of "[]"] show ?thesis
    by (simp add: json_parse_def)
qed

lemma stringify_inj: "stringify v = stringify w \<longleftrightarrow> v = w"
  by (metis json_parse_stringify option.inject)

lemma stringify_ne [simp]: "stringify v \<noteq> []"
  using stringify_Cons [of v] by auto

end
