(* ===== verification/Cache.thy ===== *)
theory Cache
  imports Prelude Json
begin

text \<open>
  The request cache of src/src/hooks/useCustomFetch.ts: the key of a request
  (\<open>getCacheKey\<close>, lines 88--90), the two map operations \<open>fetchWithCache\<close>
  performs on the shared cache (lines 24 and 33), and the two administrative
  operations \<open>clearCache\<close> (lines 53--59) and \<open>clearCacheByEndpoint\<close>
  (lines 61--78). The cache is reached through \<open>cache?.current\<close>: the
  context may hold no cache at all, which the model writes as \<open>None\<close>. The
  lemmas show that keys are injective, that the selective clear is the filter
  it means to be and removes exactly the entries of the named endpoints, and
  that every operation keeps the keys distinct, as a JavaScript \<open>Map\<close> has them.
\<close>

section \<open>Endpoints and cache keys\<close>

text \<open>\<open>RegisteredEndpoints\<close> (src/utils/fetch.ts, outside src/src): the three endpoints of the fake backend.\<close>

datatype endpoint = Employees | PaginatedTransactions | Transactions

definition endpoint_name :: "endpoint \<Rightarrow> string" where
  "endpoint_name e =
     (case e of Employees \<Rightarrow> ''employees''
      | PaginatedTransactions \<Rightarrow> ''paginatedTransactions''
      | Transactions \<Rightarrow> ''transactions'')"

text \<open>
  \<open>getCacheKey(endpoint, params)\<close>: the endpoint's name, then \<open>@\<close> and the
  serialised parameters when there are any (an absent \<open>params\<close> is falsy, an
  object never is).
\<close>

definition getCacheKey :: "endpoint \<Rightarrow> json option \<Rightarrow> string" where
  "getCacheKey endpoint params =
     endpoint_name endpoint @ (case params of None \<Rightarrow> [] | Some p \<Rightarrow> CHR ''@'' # stringify p)"

section \<open>The cache reference and its operations\<close>

type_synonym cache_ref = "js_map option"

text \<open>\<open>cache?.current.get(cacheKey)\<close>: undefined when there is no cache.\<close>

definition cache_get :: "cache_ref \<Rightarrow> string \<Rightarrow> string option" where
  "cache_get cache key = (case cache of None \<Rightarrow> None | Some m \<Rightarrow> map_of m key)"

text \<open>\<open>cache?.current.set(cacheKey, value)\<close>: nothing happens when there is no cache.\<close>

definition cache_set :: "cache_ref \<Rightarrow> string \<Rightarrow> string \<Rightarrow> cache_ref" where
  "cache_set cache key v = map_option (AList.update key v) cache"

definition clearCache :: "cache_ref \<Rightarrow> cache_ref" where
  "clearCache cache = (case cache of None \<Rightarrow> None | Some _ \<Rightarrow> Some [])"

text \<open>
  \<open>clearCacheByEndpoint\<close>: a snapshot of the keys, then one pass over it that
  deletes every key starting with one of the endpoints' names.
\<close>

definition clear_key :: "endpoint list \<Rightarrow> string \<Rightarrow> bool" where
  "clear_key endpointsToClear key = list_ex (\<lambda>e. prefix (endpoint_name e) key) endpointsToClear"

definition clearCacheByEndpoint :: "endpoint list \<Rightarrow> cache_ref \<Rightarrow> cache_ref" where
  "clearCacheByEndpoint endpointsToClear cache =
     (case cache of
        None \<Rightarrow> None
      | Some m \<Rightarrow>
          Some (fold (\<lambda>key m'. if clear_key endpointsToClear key then AList.delete key m' else m')
                  (map fst m) m))"

text \<open>The cache's type invariant: a \<open>Map\<close> holds each key once.\<close>

definition cache_wf :: "cache_ref \<Rightarrow> bool" where
  "cache_wf cache = (case cache of None \<Rightarrow> True | Some m \<Rightarrow> distinct (map fst m))"

section \<open>Keys\<close>

lemma endpoint_name_no_at: "CHR ''@'' \<notin> set (endpoint_name e)"
  by (cases e) (simp_all add: endpoint_name_def)

lemma endpoint_name_inj: "endpoint_name e = endpoint_name e' \<longleftrightarrow> e = e'"
  by (cases e; cases e') (simp_all add: endpoint_name_def)

lemma takeWhile_getCacheKey:
  "takeWhile (\<lambda>c. c \<noteq> CHR ''@'') (getCacheKey e p) = endpoint_name e"
  "dropWhile (\<lambda>c. c \<noteq> CHR ''@'') (getCacheKey e p) =
     (case p of None \<Rightarrow> [] | Some q \<Rightarrow> CHR ''@'' # stringify q)"
  using endpoint_name_no_at [of e]
  by (simp_all add: getCacheKey_def split: option.splits)

lemma getCacheKey_endpoint: "getCacheKey e p = getCacheKey e' p' \<Longrightarrow> e = e'"
  by (metis takeWhile_getCacheKey(1) endpoint_name_inj)

text \<open>No endpoint's name starts another endpoint's key.\<close>

lemma prefix_endpoint_key: "prefix (endpoint_name e') (getCacheKey e p) \<longleftrightarrow> e' = e"
proof
  assume "prefix (endpoint_name e') (getCacheKey e p)"
  then have "take 1 (endpoint_name e') = take 1 (endpoint_name e)"
    by (cases e; cases e') (auto simp: getCacheKey_def endpoint_name_def prefix_def)
  then show "e' = e"
    by (cases e; cases e') (simp_all add: endpoint_name_def)
qed (simp add: getCacheKey_def)

lemma clear_key_getCacheKey: "clear_key es (getCacheKey e p) \<longleftrightarrow> e \<in> set es"
  by (auto simp: clear_key_def list_ex_iff prefix_endpoint_key)

section \<open>The selective clear\<close>

lemma clearCacheByEndpoint_None: "clearCacheByEndpoint es None = None"
  by (simp add: clearCacheByEndpoint_def)

lemma clearCacheByEndpoint_filter:
  "clearCacheByEndpoint es (Some m) = Some (filter (\<lambda>(k, v). \<not> clear_key es k) m)"
proof -
  have "fold (\<lambda>key m'. if clear_key es key then AList.delete key m' else m') (map fst m)
          (filter (\<lambda>(k, v). True) m)
        = filter (\<lambda>(k, v). True \<and> \<not> (clear_key es k \<and> k \<in> set (map fst m))) m"
    by (rule fold_delete_filter)
  also have "\<dots> = filter (\<lambda>(k, v). \<not> clear_key es k) m"
    by (rule filter_cong) (auto simp: image_iff)
  finally show ?thesis by (simp add: clearCacheByEndpoint_def)
qed

lemma cache_get_clearCacheByEndpoint:
  "cache_get (clearCacheByEndpoint es c) k = (if clear_key es k then None else cache_get c k)"
  by (cases c) (simp_all add: cache_get_def clearCacheByEndpoint_None clearCacheByEndpoint_filter
      map_of_filter_keys)

section \<open>The type invariant\<close>

lemma cache_wf_set: "cache_wf c \<Longrightarrow> cache_wf (cache_set c k v)"
  by (cases c) (simp_all add: cache_wf_def cache_set_def distinct_update)

lemma cache_wf_clearCache: "cache_wf (clearCache c)"
  by (cases c) (simp_all add: cache_wf_def clearCache_def)

lemma cache_wf_clearCacheByEndpoint: "cache_wf c \<Longrightarrow> cache_wf (clearCacheByEndpoint es c)"
  by (cases c) (simp_all add: cache_wf_def clearCacheByEndpoint_None clearCacheByEndpoint_filter
      distinct_keys_filter)

lemmas cache_wf_preserved = cache_wf_set cache_wf_clearCache cache_wf_clearCacheByEndpoint

section \<open>What the cache promises\<close>

text \<open>
  C36. Two requests share a cache key exactly when they name the same
  endpoint and serialise to the same parameters: keys are deterministic, and
  different endpoints or different parameters never collide.
\<close>

theorem getCacheKey_inj:
  "getCacheKey e p = getCacheKey e' p' \<longleftrightarrow> e = e' \<and> p = p'"
proof
  assume eq: "getCacheKey e p = getCacheKey e' p'"
  then have "endpoint_name e = endpoint_name e'"
    by (metis takeWhile_getCacheKey(1))
  moreover from eq have "(case p of None \<Rightarrow> [] | Some q \<Rightarrow> CHR ''@'' # stringify q)
      = (case p' of None \<Rightarrow> [] | Some q \<Rightarrow> CHR ''@'' # stringify q)"
    by (metis takeWhile_getCacheKey(2))
  then have "p = p'"
    by (auto simp: stringify_inj split: option.splits)
  ultimately show "e = e' \<and> p = p'" by (simp add: endpoint_name_inj)
qed simp

text \<open>
  The key of the first page request is the string the spec gives: the
  endpoint name \<open>paginatedTransactions\<close>, the separator \<open>@\<close>, and the
  serialised parameters \<open>{"page":0}\<close>.
\<close>

theorem getCacheKey_first_page:
  "getCacheKey PaginatedTransactions (Some (JObj [(''page'', JNum 0)]))
     = ''paginatedTransactions'' @ CHR ''@'' # CHR ''{'' # CHR 0x22 # ''page'' @ CHR 0x22 # '':0}''"
  by code_simp

text \<open>
  C37. Clearing by endpoint removes the entry of every request to a
  named endpoint and keeps every other entry as it was: no endpoint's name is a
  prefix of another endpoint's keys.
\<close>

theorem clearCacheByEndpoint_get:
  "cache_get (clearCacheByEndpoint es c) (getCacheKey e p) =
     (if e \<in> set es then None else cache_get c (getCacheKey e p))"
  by (simp add: cache_get_clearCacheByEndpoint clear_key_getCacheKey)

text \<open>
  C38. The loop of \<open>clearCacheByEndpoint\<close> over the snapshot of the
  keys computes the filter that keeps exactly the entries whose key starts with
  none of the named endpoints, in their order.
\<close>

theorem clearCacheByEndpoint_spec:
  "clearCacheByEndpoint es c = map_option (filter (\<lambda>(k, v). \<not> clear_key es k)) c"
  by (cases c) (simp_all add: clearCacheByEndpoint_None clearCacheByEndpoint_filter)

end
