(* ===== verification/Fetch.thy ===== *)
theory Fetch
  imports Cache
begin

text \<open>
  The fetch layer of src/src/hooks/useCustomFetch.ts: \<open>fetchWithCache\<close>
  (lines 15--37) and \<open>fetchWithoutCache\<close> (lines 44--51), both run through the
  request executor \<open>wrappedRequest\<close> of the hook \<open>useWrappedRequest\<close> (outside
  src/src, modelled from the spec: it sets its loading flag, runs the request,
  turns a thrown error into \<open>null\<close> and clears the flag on every exit path).
  Each hook that calls \<open>useCustomFetch()\<close> owns one executor and so one
  loading flag; all of them share the cache of the application context.
  The network is \<open>fakeFetch\<close> (outside src/src): an oracle from endpoint and
  parameters to a response or a failure, and every call is recorded in the
  state, so that "no network call" is a statement about the model.
  The state is an extensible record; the components that call the fetch layer
  extend it with their own fields, and the frame lemmas below say that the
  fetch layer never touches them.
\<close>

section \<open>State, network and errors\<close>

text \<open>The hooks that own an executor, one loading flag each.\<close>

datatype hook = EmployeesHook | PaginatedHook | ByEmployeeHook

datatype fetch_error = FetchFailed string | SyntaxError

type_synonym network = "endpoint \<Rightarrow> json option \<Rightarrow> fetch_error + json"

record fetch_state =
  cache :: cache_ref
  loading :: "hook \<Rightarrow> bool"
  requests :: "(endpoint \<times> json option) list"

text \<open>
  \<open>useWrappedRequest().wrappedRequest(promise)\<close>: \<open>setLoading(true)\<close>, run the
  request, return its result or \<open>null\<close> when it throws, and \<open>setLoading(false)\<close>
  in the \<open>finally\<close> block.
\<close>

definition wrappedRequest ::
  "hook \<Rightarrow> ('s fetch_state_scheme \<Rightarrow> (fetch_error + 'a) \<times> 's fetch_state_scheme)
   \<Rightarrow> 's fetch_state_scheme \<Rightarrow> 'a option \<times> 's fetch_state_scheme" where
  "wrappedRequest h promise s =
     (case promise (s\<lparr>loading := (loading s)(h := True)\<rparr>) of
        (r, s') \<Rightarrow>
          ((case r of Inl _ \<Rightarrow> None | Inr v \<Rightarrow> Some v),
           s'\<lparr>loading := (loading s')(h := False)\<rparr>))"

text \<open>\<open>fakeFetch(endpoint, params)\<close>: one call of the network, recorded.\<close>

definition fakeFetch ::
  "network \<Rightarrow> endpoint \<Rightarrow> json option \<Rightarrow> 's fetch_state_scheme
   \<Rightarrow> (fetch_error + json) \<times> 's fetch_state_scheme" where
  "fakeFetch net endpoint params s = (net endpoint params, s\<lparr>requests := requests s @ [(endpoint, params)]\<rparr>)"

text \<open>
  The miss path of \<open>fetchWithCache\<close> (lines 32--34): fetch, then store the
  serialised result under the key; a failure leaves the cache alone.
\<close>

definition fetch_and_store ::
  "network \<Rightarrow> endpoint \<Rightarrow> json option \<Rightarrow> string \<Rightarrow> 's fetch_state_scheme
   \<Rightarrow> (fetch_error + json) \<times> 's fetch_state_scheme" where
  "fetch_and_store net endpoint params cacheKey s =
     (case fakeFetch net endpoint params s of
        (Inl err, s') \<Rightarrow> (Inl err, s')
      | (Inr result, s') \<Rightarrow> (Inr result, s'\<lparr>cache := cache_set (cache s') cacheKey (stringify result)\<rparr>))"

text \<open>
  \<open>fetchWithCache(endpoint, params)\<close>: a present, non-empty (truthy) entry is
  parsed and returned, a parse error is thrown; otherwise the miss path.
\<close>

definition fetchWithCache ::
  "hook \<Rightarrow> network \<Rightarrow> endpoint \<Rightarrow> json option \<Rightarrow> 's fetch_state_scheme
   \<Rightarrow> json option \<times> 's fetch_state_scheme" where
  "fetchWithCache h net endpoint params =
     wrappedRequest h (\<lambda>s.
       let cacheKey = getCacheKey endpoint params in
       (case cache_get (cache s) cacheKey of
          Some cacheResponse \<Rightarrow>
            (if cacheResponse \<noteq> [] then
               (case json_parse cacheResponse of
                  None \<Rightarrow> (Inl SyntaxError, s)
                | Some data \<Rightarrow> (Inr data, s))
             else fetch_and_store net endpoint params cacheKey s)
        | None \<Rightarrow> fetch_and_store net endpoint params cacheKey s))"

definition fetchWithoutCache ::
  "hook \<Rightarrow> network \<Rightarrow> endpoint \<Rightarrow> json option \<Rightarrow> 's fetch_state_scheme
   \<Rightarrow> json option \<times> 's fetch_state_scheme" where
  "fetchWithoutCache h net endpoint params = wrappedRequest h (fakeFetch net endpoint params)"

text \<open>
  The cache agrees with the network: every entry is the serialisation of a
  successful response of the network to the request the key names. The empty
  cache has this property and the fetch layer keeps it; with it, a cached
  request returns what the network returns.
\<close>

definition cache_consistent :: "network \<Rightarrow> cache_ref \<Rightarrow> bool" where
  "cache_consistent net c \<longleftrightarrow>
     (\<forall>k v. cache_get c k = Some v \<longrightarrow> (\<exists>e p r. k = getCacheKey e p \<and> net e p = Inr r \<and> v = stringify r))"

definition hit_state :: fetch_state where
  "hit_state = \<lparr>cache = Some [(getCacheKey Employees None, stringify (JArr []))],
     loading = (\<lambda>_. False), requests = []\<rparr>"

definition empty_fetch_state :: fetch_state where
  "empty_fetch_state = \<lparr>cache = Some [], loading = (\<lambda>_. False), requests = []\<rparr>"

section \<open>The executor\<close>

lemma wrappedRequest_result:
  "promise (s\<lparr>loading := (loading s)(h := True)\<rparr>) = (r, s') \<Longrightarrow>
   wrappedRequest h promise s =
     ((case r of Inl _ \<Rightarrow> None | Inr v \<Rightarrow> Some v), s'\<lparr>loading := (loading s')(h := False)\<rparr>)"
  by (simp add: wrappedRequest_def)

lemma wrappedRequest_loading:
  "loading (snd (wrappedRequest h promise s)) =
     (loading (snd (promise (s\<lparr>loading := (loading s)(h := True)\<rparr>))))(h := False)"
  by (simp add: wrappedRequest_def split: prod.splits)

section \<open>The two fetch operations, branch by branch\<close>

lemma wrapped_fetch_and_store:
  "wrappedRequest h (fetch_and_store net e p k) s =
     (case net e p of
        Inl _ \<Rightarrow> (None, s\<lparr>loading := (loading s)(h := False), requests := requests s @ [(e, p)]\<rparr>)
      | Inr r \<Rightarrow> (Some r, s\<lparr>cache := cache_set (cache s) k (stringify r),
                    loading := (loading s)(h := False), requests := requests s @ [(e, p)]\<rparr>))"
  by (simp add: wrappedRequest_def fetch_and_store_def fakeFetch_def split: sum.splits)

text \<open>\<open>fetchWithCache\<close> in one equation: hit, corrupt entry, empty entry, miss.\<close>

lemma fetchWithCache_eq:
  "fetchWithCache h net e p s =
     (case cache_get (cache s) (getCacheKey e p) of
        Some str \<Rightarrow>
          (if str \<noteq> [] then (json_parse str, s\<lparr>loading := (loading s)(h := False)\<rparr>)
           else wrappedRequest h (fetch_and_store net e p (getCacheKey e p)) s)
      | None \<Rightarrow> wrappedRequest h (fetch_and_store net e p (getCacheKey e p)) s)"
  by (auto simp: fetchWithCache_def Let_def wrappedRequest_def
      split: option.splits prod.splits sum.splits)

lemma fetchWithoutCache_eq:
  "fetchWithoutCache h net e p s =
     (case net e p of
        Inl _ \<Rightarrow> (None, s\<lparr>loading := (loading s)(h := False), requests := requests s @ [(e, p)]\<rparr>)
      | Inr r \<Rightarrow> (Some r, s\<lparr>loading := (loading s)(h := False), requests := requests s @ [(e, p)]\<rparr>))"
  by (simp add: fetchWithoutCache_def wrappedRequest_def fakeFetch_def split: sum.splits)

text \<open>
  The frame of the fetch layer: it writes the cache, the caller's loading flag
  and the request log, and nothing else of the state it is given.
\<close>

lemma fetchWithCache_frame:
  "snd (fetchWithCache h net e p s) =
     s\<lparr>cache := cache (snd (fetchWithCache h net e p s)), loading := (loading s)(h := False),
       requests := requests (snd (fetchWithCache h net e p s))\<rparr>"
  by (auto simp: fetchWithCache_eq wrapped_fetch_and_store split: option.splits sum.splits)

lemma fetchWithoutCache_frame:
  "snd (fetchWithoutCache h net e p s) =
     s\<lparr>loading := (loading s)(h := False), requests := requests (snd (fetchWithoutCache h net e p s))\<rparr>"
  by (auto simp: fetchWithoutCache_eq split: sum.splits)

lemma fetchWithCache_more [frame_simps]:
  "fetch_state.more (snd (fetchWithCache h net e p s)) = fetch_state.more s"
  by (subst fetchWithCache_frame) simp

lemma fetchWithoutCache_more [frame_simps]:
  "fetch_state.more (snd (fetchWithoutCache h net e p s)) = fetch_state.more s"
  by (subst fetchWithoutCache_frame) simp

lemma fetchWithCache_loading [frame_simps]:
  "loading (snd (fetchWithCache h net e p s)) = (loading s)(h := False)"
  by (subst fetchWithCache_frame) simp

lemma fetchWithoutCache_loading [frame_simps]:
  "loading (snd (fetchWithoutCache h net e p s)) = (loading s)(h := False)"
  by (subst fetchWithoutCache_frame) simp

lemma fetchWithoutCache_cache [frame_simps]:
  "cache (snd (fetchWithoutCache h net e p s)) = cache s"
  by (subst fetchWithoutCache_frame) simp

lemma fetchWithCache_cache_wf_step:
  "cache_wf (cache s) \<Longrightarrow> cache_wf (cache (snd (fetchWithCache h net e p s)))"
  by (auto simp: fetchWithCache_eq wrapped_fetch_and_store cache_wf_set
      split: option.splits sum.splits)

section \<open>What the fetch layer promises\<close>

text \<open>
  C18. A cache hit: when the entry under the request's key is the
  serialisation of a value, \<open>fetchWithCache\<close> returns that value, makes no
  network call, leaves the cache as it is, and only toggles its loading flag
  back to false.
\<close>

theorem fetchWithCache_hit:
  assumes "cache_get (cache s) (getCacheKey e p) = Some (stringify v)"
  shows "fetchWithCache h net e p s = (Some v, s\<lparr>loading := (loading s)(h := False)\<rparr>)"
  using assms by (simp add: fetchWithCache_eq)

theorem fetchWithCache_hit_witness:
  "cache_get (cache hit_state) (getCacheKey Employees None) = Some (stringify (JArr []))
   \<and> fetchWithCache EmployeesHook (\<lambda>_ _. Inl (FetchFailed ''down'')) Employees None hit_state
     = (Some (JArr []), hit_state\<lparr>loading := (loading hit_state)(EmployeesHook := False)\<rparr>)"
proof -
  have k: "cache_get (cache hit_state) (getCacheKey Employees None) = Some (stringify (JArr []))"
    by (simp add: hit_state_def cache_get_def)
  show ?thesis using k fetchWithCache_hit [OF k] by simp
qed

text \<open>
  C19. A cache miss: \<open>fetchWithCache\<close> calls the network once; on
  success it returns the response and stores its serialisation under the
  request's key.
\<close>

theorem fetchWithCache_miss:
  assumes "cache_get (cache s) (getCacheKey e p) = None" and "net e p = Inr r"
  shows "fetchWithCache h net e p s =
    (Some r, s\<lparr>cache := cache_set (cache s) (getCacheKey e p) (stringify r),
                loading := (loading s)(h := False), requests := requests s @ [(e, p)]\<rparr>)"
  using assms by (simp add: fetchWithCache_eq wrapped_fetch_and_store)

theorem fetchWithCache_miss_witness:
  "cache_get (cache empty_fetch_state) (getCacheKey Employees None) = None
   \<and> fetchWithCache EmployeesHook (\<lambda>_ _. Inr JNull) Employees None empty_fetch_state =
     (Some JNull, empty_fetch_state\<lparr>cache := cache_set (Some []) (getCacheKey Employees None) (stringify JNull),
        loading := (loading empty_fetch_state)(EmployeesHook := False), requests := [(Employees, None)]\<rparr>)"
proof -
  have k: "cache_get (cache empty_fetch_state) (getCacheKey Employees None) = None"
    by (simp add: empty_fetch_state_def cache_get_def)
  have n: "(\<lambda>_ _. Inr JNull :: fetch_error + json) Employees None = Inr JNull" by simp
  show ?thesis using k fetchWithCache_miss [OF k n, of EmployeesHook]
    by (simp add: empty_fetch_state_def)
qed

text \<open>
  C32. A failed network call on a miss: the result is \<open>null\<close>, nothing
  is written to the cache, and the loading flag is false again.
\<close>

theorem fetchWithCache_error:
  assumes "cache_get (cache s) (getCacheKey e p) = None" and "net e p = Inl err"
  shows "fetchWithCache h net e p s =
    (None, s\<lparr>loading := (loading s)(h := False), requests := requests s @ [(e, p)]\<rparr>)"
  using assms by (simp add: fetchWithCache_eq wrapped_fetch_and_store)

theorem fetchWithCache_error_witness:
  "cache_get (cache empty_fetch_state) (getCacheKey Transactions None) = None
   \<and> fetchWithCache ByEmployeeHook (\<lambda>_ _. Inl (FetchFailed ''timeout'')) Transactions None empty_fetch_state =
     (None, empty_fetch_state\<lparr>loading := (loading empty_fetch_state)(ByEmployeeHook := False),
        requests := [(Transactions, None)]\<rparr>)"
proof -
  have k: "cache_get (cache empty_fetch_state) (getCacheKey Transactions None) = None"
    by (simp add: empty_fetch_state_def cache_get_def)
  have n: "(\<lambda>_ _. Inl (FetchFailed ''timeout'') :: fetch_error + json) Transactions None
      = Inl (FetchFailed ''timeout'')" by simp
  show ?thesis using k fetchWithCache_error [OF k n, of ByEmployeeHook]
    by (simp add: empty_fetch_state_def)
qed

text \<open>
  C20. Once \<open>fetchWithCache\<close> has produced a value for a request,
  the same request (from any hook) is answered from the cache with the same
  value and no network call, as long as there is a cache.
\<close>

theorem fetchWithCache_memo:
  assumes "cache s \<noteq> None" and "fst (fetchWithCache h net e p s) = Some v"
  shows "fetchWithCache h' net e p (snd (fetchWithCache h net e p s)) =
    (Some v, (snd (fetchWithCache h net e p s))\<lparr>loading := (loading (snd (fetchWithCache h net e p s)))(h' := False)\<rparr>)"
  using assms
  by (auto simp: fetchWithCache_eq wrapped_fetch_and_store cache_get_def cache_set_def update_conv'
      split: option.splits if_splits sum.splits)

theorem fetchWithCache_memo_witness:
  "cache empty_fetch_state \<noteq> None
   \<and> fst (fetchWithCache PaginatedHook (\<lambda>_ _. Inr (JNum 7)) PaginatedTransactions None empty_fetch_state) = Some (JNum 7)
   \<and> fst (fetchWithCache ByEmployeeHook (\<lambda>_ _. Inr (JNum 7)) PaginatedTransactions None
        (snd (fetchWithCache PaginatedHook (\<lambda>_ _. Inr (JNum 7)) PaginatedTransactions None empty_fetch_state)))
     = Some (JNum 7)"
proof -
  have c: "cache empty_fetch_state \<noteq> None" by (simp add: empty_fetch_state_def)
  have f: "fst (fetchWithCache PaginatedHook (\<lambda>_ _. Inr (JNum 7)) PaginatedTransactions None empty_fetch_state)
      = Some (JNum 7)"
    by (simp add: fetchWithCache_eq wrapped_fetch_and_store empty_fetch_state_def cache_get_def)
  show ?thesis using c f fetchWithCache_memo [OF c f, of ByEmployeeHook] by simp
qed


text \<open>
  C34. \<open>fetchWithoutCache\<close> always makes exactly one network call,
  returns its result (\<open>null\<close> on failure) and never reads or writes the cache.
\<close>

theorem fetchWithoutCache_uncached:
  "fst (fetchWithoutCache h net e p s) = (case net e p of Inl _ \<Rightarrow> None | Inr r \<Rightarrow> Some r)
   \<and> requests (snd (fetchWithoutCache h net e p s)) = requests s @ [(e, p)]
   \<and> cache (snd (fetchWithoutCache h net e p s)) = cache s"
  by (simp add: fetchWithoutCache_eq split: sum.splits)

section \<open>The cache is transparent\<close>

lemma cache_consistent_empty: "cache_consistent net (Some [])" "cache_consistent net None"
  by (simp_all add: cache_consistent_def cache_get_def)

lemma cache_consistent_hit:
  assumes "cache_consistent net c" and "cache_get c (getCacheKey e p) = Some v"
  shows "\<exists>r. net e p = Inr r \<and> v = stringify r"
  using assms unfolding cache_consistent_def by (metis getCacheKey_inj)

lemma cache_consistent_set:
  assumes "cache_consistent net c" and "net e p = Inr r"
  shows "cache_consistent net (cache_set c (getCacheKey e p) (stringify r))"
  using assms unfolding cache_consistent_def
  by (auto simp: cache_get_def cache_set_def update_conv' split: option.splits if_splits)

lemma fetchWithCache_consistent:
  "cache_consistent net (cache s) \<Longrightarrow> cache_consistent net (cache (snd (fetchWithCache h net e p s)))"
  by (auto simp: fetchWithCache_eq wrapped_fetch_and_store cache_consistent_set
      split: option.splits sum.splits)

text \<open>
  C5. With a cache that agrees with the network, the result of
  \<open>fetchWithCache\<close> is the network's answer to the request (\<open>null\<close> for a
  failure): caching changes how often the network is asked, never what the
  caller gets.
\<close>

theorem fetchWithCache_transparent:
  assumes "cache_consistent net (cache s)"
  shows "fst (fetchWithCache h net e p s) = (case net e p of Inl _ \<Rightarrow> None | Inr r \<Rightarrow> Some r)"
proof (cases "cache_get (cache s) (getCacheKey e p)")
  case None
  then show ?thesis by (simp add: fetchWithCache_eq wrapped_fetch_and_store split: sum.splits)
next
  case (Some v)
  with cache_consistent_hit [OF assms] obtain r where "net e p = Inr r" and "v = stringify r"
    by blast
  with Some show ?thesis by (simp add: fetchWithCache_eq)
qed

theorem fetchWithCache_transparent_witness:
  "cache_consistent (\<lambda>_ _. Inr (JArr [])) (cache hit_state)
   \<and> fst (fetchWithCache EmployeesHook (\<lambda>_ _. Inr (JArr [])) Employees None hit_state) = Some (JArr [])"
proof -
  have c: "cache_consistent (\<lambda>_ _. Inr (JArr [])) (cache hit_state)"
    unfolding cache_consistent_def hit_state_def cache_get_def
    by (auto intro: exI [of _ Employees] exI [of _ None] split: if_splits)
  show ?thesis using c fetchWithCache_transparent [OF c, of EmployeesHook Employees None] by simp
qed

section \<open>Fetching after a selective clear\<close>

text \<open>
  C35. The cache and the fetch layer together: after
  \<open>clearCacheByEndpoint(es)\<close>, a request to a cleared endpoint goes to the
  network (exactly one call, with the network's answer as the result), and a
  request to any other endpoint is answered as before the clear, with the
  same network calls.
\<close>

theorem fetch_after_clear:
  "requests (snd (fetchWithCache h net e p (s\<lparr>cache := clearCacheByEndpoint es (cache s)\<rparr>)))
     = (if e \<in> set es then requests s @ [(e, p)] else requests (snd (fetchWithCache h net e p s)))
   \<and> fst (fetchWithCache h net e p (s\<lparr>cache := clearCacheByEndpoint es (cache s)\<rparr>))
     = (if e \<in> set es then (case net e p of Inl _ \<Rightarrow> None | Inr r \<Rightarrow> Some r)
        else fst (fetchWithCache h net e p s))"
  by (auto simp: fetchWithCache_eq wrapped_fetch_and_store cache_get_clearCacheByEndpoint
      clear_key_getCacheKey split: option.splits sum.splits)

end
