(* ===== verification/Pagination.thy ===== *)
theory Pagination
  imports Fetch
begin

text \<open>
  The pagination accumulator, src/src/hooks/usePaginatedTransactions.ts: its
  state \<open>paginatedTransactions\<close> (line 8), \<open>fetchAll\<close> (lines 15--47) with the
  state updater it passes to \<open>setPaginatedTransactions\<close> (lines 29--46), and
  \<open>invalidateData\<close> (lines 49--51). The response type \<open>PaginatedResponse\<close>
  (src/utils/types.ts, outside src/src) is a record; the hook's
  \<open>as PaginatedResponse\<close> reading of the JSON it gets back is \<open>page_of_json\<close>.
  \<open>fetchAll\<close> reads the state twice, as the code does: the guard and the page
  number come from the value the callback closed over, the updater merges into
  the latest state. In a sequential run the two agree (the fetch layer does not
  touch the field).

  The lemmas relate the accumulator to the spec's page machine: against a
  backend that serves pages \<open>0 .. n-1\<close>, each call appends the next page and the
  terminal sentinel \<open>-1\<close> stops further requests; \<open>invalidateData\<close> restarts at
  page 0. Two departures from the spec are proved as well: a data set of one page
  leaves the cursor \<open>null\<close> instead of the sentinel, so the next call requests
  page \<open>null\<close>; and a failed fetch discards the accumulated data.
\<close>

section \<open>Responses and state\<close>

text \<open>\<open>PaginatedResponse<Transaction[]>\<close>: the page's transactions and the next page number or \<open>null\<close>.\<close>

record page_resp =
  data :: "json list"
  nextPage :: "int option"

text \<open>The JSON form of a response, as the backend sends it.\<close>

definition page_to_json :: "page_resp \<Rightarrow> json" where
  "page_to_json p =
     JObj [(''data'', JArr (data p)),
           (''nextPage'', (case nextPage p of None \<Rightarrow> JNull | Some n \<Rightarrow> JNum n))]"

text \<open>
  \<open>response as PaginatedResponse\<close>: the fields read from the JSON object; a value
  of another shape (which the typed backend never sends) reads as an empty last page.
\<close>

definition page_of_json :: "json \<Rightarrow> page_resp" where
  "page_of_json j =
     (case j of
        JObj ms \<Rightarrow>
          \<lparr>data = (case map_of ms ''data'' of Some (JArr xs) \<Rightarrow> xs | _ \<Rightarrow> []),
           nextPage = (case map_of ms ''nextPage'' of Some (JNum n) \<Rightarrow> Some n | _ \<Rightarrow> None)\<rparr>
      | _ \<Rightarrow> \<lparr>data = [], nextPage = None\<rparr>)"

record pag_state = fetch_state +
  paginatedTransactions :: "page_resp option"

text \<open>\<open>{ page: paginatedTransactions === null ? 0 : paginatedTransactions.nextPage }\<close> (lines 24--26).\<close>

definition page_params :: "page_resp option \<Rightarrow> json option" where
  "page_params pt =
     Some (JObj [(''page'',
       (case pt of None \<Rightarrow> JNum 0
        | Some p \<Rightarrow> (case nextPage p of None \<Rightarrow> JNull | Some n \<Rightarrow> JNum n)))])"

text \<open>The updater of lines 29--46, from the response and the latest state.\<close>

definition merge_page :: "page_resp option \<Rightarrow> page_resp option \<Rightarrow> page_resp option" where
  "merge_page response previousResponse =
     (case (response, previousResponse) of
        (Some r, Some prev) \<Rightarrow>
          (if nextPage r = None then Some \<lparr>data = data prev @ data r, nextPage = Some (-1)\<rparr>
           else Some \<lparr>data = data prev @ data r, nextPage = nextPage r\<rparr>)
      | _ \<Rightarrow> response)"

text \<open>\<open>paginatedTransactions?.nextPage === -1\<close> (line 18).\<close>

definition at_end :: "page_resp option \<Rightarrow> bool" where
  "at_end pt = (case pt of None \<Rightarrow> False | Some p \<Rightarrow> nextPage p = Some (-1))"

definition fetchAll :: "network \<Rightarrow> 'a pag_state_scheme \<Rightarrow> 'a pag_state_scheme" where
  "fetchAll net s =
     (if at_end (paginatedTransactions s) then s
      else
        (case fetchWithCache PaginatedHook net PaginatedTransactions
                (page_params (paginatedTransactions s)) s of
           (response, s') \<Rightarrow>
             s'\<lparr>paginatedTransactions :=
                  merge_page (map_option page_of_json response) (paginatedTransactions s')\<rparr>))"

definition invalidateData :: "'a pag_state_scheme \<Rightarrow> 'a pag_state_scheme" where
  "invalidateData s = s\<lparr>paginatedTransactions := None\<rparr>"

section \<open>The spec's page machine and a backend that serves pages\<close>

text \<open>
  A backend holding the pages \<open>ds\<close> answers \<open>{page: i}\<close> for \<open>i < length ds\<close>
  with page \<open>i\<close> and the number of the next page, \<open>null\<close> after the last one
  (the contract of the spec, section 6).
\<close>

definition page_request :: "int \<Rightarrow> json option" where
  "page_request n = Some (JObj [(''page'', JNum n)])"

definition page_of :: "json list list \<Rightarrow> nat \<Rightarrow> page_resp" where
  "page_of ds i = \<lparr>data = ds ! i, nextPage = (if Suc i < length ds then Some (int (Suc i)) else None)\<rparr>"

definition serves_pages :: "network \<Rightarrow> json list list \<Rightarrow> bool" where
  "serves_pages net ds \<longleftrightarrow>
     (\<forall>i \<in> {..<length ds}. net PaginatedTransactions (page_request (int i)) = Inr (page_to_json (page_of ds i)))"

definition paged_backend :: "json list list \<Rightarrow> network" where
  "paged_backend ds e p =
     (if e \<noteq> PaginatedTransactions then Inl (FetchFailed ''not served'')
      else
        (case p of
           Some (JObj [(k, JNum n)]) \<Rightarrow>
             (if k = ''page'' \<and> 0 \<le> n \<and> nat n < length ds
              then Inr (page_to_json (page_of ds (nat n)))
              else Inl (FetchFailed ''no such page''))
         | _ \<Rightarrow> Inl (FetchFailed ''bad request'')))"

text \<open>
  The spec's \<open>PaginatedState | null\<close> (section 4.4): the accumulated data and a
  cursor that is the next page to fetch or the terminal sentinel; and its
  \<open>fetchNextPage\<close> against the pages \<open>ds\<close>.
\<close>

datatype cursor = NextAt nat | Terminal

type_synonym spec_pages = "(json list \<times> cursor) option"

definition spec_fetch :: "json list list \<Rightarrow> spec_pages \<Rightarrow> spec_pages" where
  "spec_fetch ds st =
     (case st of
        None \<Rightarrow> Some (ds ! 0, if 1 < length ds then NextAt 1 else Terminal)
      | Some (d, NextAt n) \<Rightarrow> Some (d @ ds ! n, if Suc n < length ds then NextAt (Suc n) else Terminal)
      | Some (d, Terminal) \<Rightarrow> Some (d, Terminal))"

text \<open>The abstraction: \<open>-1\<close> (or \<open>null\<close>) is the sentinel, any other number the next page.\<close>

definition abs_pages :: "page_resp option \<Rightarrow> spec_pages" where
  "abs_pages pt =
     map_option (\<lambda>p. (data p, (case nextPage p of Some n \<Rightarrow> if n < 0 then Terminal else NextAt (nat n)
                              | None \<Rightarrow> Terminal))) pt"

text \<open>
  The accumulator's invariant against \<open>ds\<close>: nothing loaded, or the first
  \<open>k\<close> pages in order with the cursor at page \<open>k\<close> or, after the last page,
  the sentinel.
\<close>

definition pages_inv :: "json list list \<Rightarrow> page_resp option \<Rightarrow> bool" where
  "pages_inv ds pt =
     (case pt of
        None \<Rightarrow> True
      | Some p \<Rightarrow> (\<exists>k \<in> {1..length ds}. p = \<lparr>data = concat (take k ds),
                   nextPage = Some (if k = length ds then -1 else int k)\<rparr>))"

text \<open>The hook's initial state, on an empty cache, and three sample pages.\<close>

definition pag_init :: pag_state where
  "pag_init = \<lparr>cache = Some [], loading = (\<lambda>_. False), requests = [], paginatedTransactions = None\<rparr>"

definition sample_pages :: "json list list" where
  "sample_pages = [[JNum 1, JNum 2], [JNum 3], [JNum 4, JNum 5]]"

section \<open>One call of fetchAll\<close>

lemma paginatedTransactions_fetchWithCache [frame_simps]:
  "paginatedTransactions (snd (fetchWithCache h net e p s)) = paginatedTransactions s"
  by (subst fetchWithCache_frame) simp

lemma page_of_json_page_to_json [simp, codec_simps]: "page_of_json (page_to_json p) = p"
  by (cases "nextPage p") (simp_all add: page_of_json_def page_to_json_def)

lemma fetchAll_unfold:
  "\<not> at_end (paginatedTransactions s) \<Longrightarrow>
   paginatedTransactions (fetchAll net s) =
     merge_page (map_option page_of_json
       (fst (fetchWithCache PaginatedHook net PaginatedTransactions (page_params (paginatedTransactions s)) s)))
       (paginatedTransactions s)"
  by (simp add: fetchAll_def case_prod_beta frame_simps)

lemma fetchAll_at_end: "at_end (paginatedTransactions s) \<Longrightarrow> fetchAll net s = s"
  by (simp add: fetchAll_def)

text \<open>With a cache that agrees with the network, one call merges the network's answer.\<close>

lemma fetchAll_step:
  assumes "cache_consistent net (cache s)" and "\<not> at_end (paginatedTransactions s)"
  shows "paginatedTransactions (fetchAll net s) =
           merge_page (map_option page_of_json
             (case net PaginatedTransactions (page_params (paginatedTransactions s)) of
                Inl _ \<Rightarrow> None | Inr r \<Rightarrow> Some r))
           (paginatedTransactions s)"
  using fetchAll_unfold [OF assms(2)] fetchWithCache_transparent [OF assms(1)] by simp

lemma fetchAll_consistent:
  "cache_consistent net (cache s) \<Longrightarrow> cache_consistent net (cache (fetchAll net s))"
  by (simp add: fetchAll_def fetchWithCache_consistent split: prod.splits)
    (metis fetchWithCache_consistent prod.collapse snd_conv)

lemma page_params_request:
  "page_params None = page_request 0"
  "nextPage p = Some n \<Longrightarrow> page_params (Some p) = page_request n"
  by (simp_all add: page_params_def page_request_def)

lemma concat_take_Suc: "k < length ds \<Longrightarrow> concat (take k ds) @ ds ! k = concat (take (Suc k) ds)"
  by (simp add: take_Suc_conv_app_nth)

lemma serves_pagesD:
  "serves_pages net ds \<Longrightarrow> i < length ds \<Longrightarrow>
   net PaginatedTransactions (page_request (int i)) = Inr (page_to_json (page_of ds i))"
  by (simp add: serves_pages_def)

lemma fetchAll_first:
  assumes "2 \<le> length ds" and "serves_pages net ds" and "cache_consistent net (cache s)"
    and "paginatedTransactions s = None"
  shows "paginatedTransactions (fetchAll net s) = Some \<lparr>data = ds ! 0, nextPage = Some 1\<rparr>"
proof -
  have "net PaginatedTransactions (page_request 0) = Inr (page_to_json (page_of ds 0))"
    using serves_pagesD [OF assms(2), of 0] assms(1) by fastforce
  with assms(1,3,4) show ?thesis
    by (simp add: fetchAll_step at_end_def page_params_request merge_page_def page_of_def)
qed

lemma fetchAll_next:
  assumes "serves_pages net ds" and "cache_consistent net (cache s)"
    and "paginatedTransactions s = Some p" and "nextPage p = Some (int k)" and "k < length ds"
  shows "paginatedTransactions (fetchAll net s) =
           Some \<lparr>data = data p @ ds ! k, nextPage = Some (if Suc k < length ds then int (Suc k) else -1)\<rparr>"
proof -
  have "net PaginatedTransactions (page_request (int k)) = Inr (page_to_json (page_of ds k))"
    using serves_pagesD [OF assms(1,5)] .
  moreover have "\<not> at_end (paginatedTransactions s)"
    using assms(3,4) by (simp add: at_end_def)
  ultimately show ?thesis using assms(2-4)
    by (simp add: fetchAll_step page_params_request merge_page_def page_of_def)
qed

lemma fetchAll_funpow_consistent:
  "cache_consistent net (cache s) \<Longrightarrow> cache_consistent net (cache ((fetchAll net ^^ k) s))"
  by (induction k) (simp_all add: fetchAll_consistent)

section \<open>What the accumulator promises\<close>

text \<open>
  C3. Refinement: against a backend serving at least two pages and
  with a cache that agrees with it, one \<open>fetchAll\<close> does to the abstract state
  what the spec's \<open>fetchNextPage\<close> does (load page 0, append the next page and
  advance the cursor, or stay at the sentinel), and keeps the invariant.
\<close>

theorem fetchAll_refines:
  assumes "2 \<le> length ds" and "serves_pages net ds" and "cache_consistent net (cache s)"
    and "pages_inv ds (paginatedTransactions s)"
  shows "abs_pages (paginatedTransactions (fetchAll net s)) = spec_fetch ds (abs_pages (paginatedTransactions s))
         \<and> pages_inv ds (paginatedTransactions (fetchAll net s))"
proof (cases "paginatedTransactions s")
  case None
  have "take 1 ds = [ds ! 0]" using assms(1) by (cases ds) simp_all
  with fetchAll_first [OF assms(1-3) None] assms(1) None show ?thesis
    by (auto simp: abs_pages_def spec_fetch_def pages_inv_def intro!: bexI [of _ 1])
next
  case (Some p)
  with assms(4) obtain k where k: "1 \<le> k" "k \<le> length ds"
    and p: "p = \<lparr>data = concat (take k ds), nextPage = Some (if k = length ds then -1 else int k)\<rparr>"
    by (auto simp: pages_inv_def)
  show ?thesis
  proof (cases "k = length ds")
    case True
    with Some p have "fetchAll net s = s" by (simp add: fetchAll_at_end at_end_def)
    with Some p True assms(4) show ?thesis by (simp add: abs_pages_def spec_fetch_def)
  next
    case False
    with k have lt: "k < length ds" by simp
    from fetchAll_next [OF assms(2,3) Some _ lt] p False
    have "paginatedTransactions (fetchAll net s) =
            Some \<lparr>data = concat (take (Suc k) ds),
                  nextPage = Some (if Suc k = length ds then -1 else int (Suc k))\<rparr>"
      using lt by (auto simp: concat_take_Suc)
    with Some p False lt show ?thesis
      by (auto simp: abs_pages_def spec_fetch_def pages_inv_def concat_take_Suc intro!: bexI [of _ "Suc k"])
  qed
qed

lemma paged_backend_serves: "serves_pages (paged_backend ds) ds"
  by (simp add: serves_pages_def paged_backend_def page_request_def)

lemma pag_init_facts:
  "cache_consistent net (cache pag_init)" "paginatedTransactions pag_init = None"
  "pages_inv ds (paginatedTransactions pag_init)"
  by (simp_all add: pag_init_def cache_consistent_empty pages_inv_def)

theorem fetchAll_refines_witness:
  "2 \<le> length sample_pages \<and> serves_pages (paged_backend sample_pages) sample_pages
   \<and> cache_consistent (paged_backend sample_pages) (cache pag_init)
   \<and> pages_inv sample_pages (paginatedTransactions pag_init)
   \<and> abs_pages (paginatedTransactions (fetchAll (paged_backend sample_pages) pag_init))
       = Some ([JNum 1, JNum 2], NextAt 1)"
proof -
  have l: "2 \<le> length sample_pages" by (simp add: sample_pages_def)
  note r = fetchAll_refines [OF l paged_backend_serves pag_init_facts(1) pag_init_facts(3)]
  show ?thesis using l r paged_backend_serves pag_init_facts
    by (simp add: spec_fetch_def abs_pages_def sample_pages_def)
qed

text \<open>
  C4. The spec's merge scenario, for any number of pages from two on:
  starting with nothing loaded, \<open>k\<close> calls of \<open>fetchAll\<close> hold pages
  \<open>0 .. k-1\<close> concatenated in order, with the cursor at page \<open>k\<close>, or at the
  sentinel \<open>-1\<close> once the last page is in.
\<close>

theorem fetchAll_pages:
  assumes "2 \<le> length ds" and "serves_pages net ds" and "cache_consistent net (cache s)"
    and "paginatedTransactions s = None" and "1 \<le> k" and "k \<le> length ds"
  shows "paginatedTransactions ((fetchAll net ^^ k) s) =
           Some \<lparr>data = concat (take k ds), nextPage = Some (if k = length ds then -1 else int k)\<rparr>"
  using assms(5,6)
proof (induction k rule: nat_induct_at_least)
  case base
  have "take 1 ds = [ds ! 0]" using assms(1) by (cases ds) simp_all
  with fetchAll_first [OF assms(1-4)] assms(1) show ?case by simp
next
  case (Suc k)
  then have lt: "k < length ds" by simp
  from Suc.IH lt have st: "paginatedTransactions ((fetchAll net ^^ k) s) =
      Some \<lparr>data = concat (take k ds), nextPage = Some (int k)\<rparr>" by simp
  from fetchAll_next [OF assms(2) fetchAll_funpow_consistent [OF assms(3)] st _ lt] lt
  show ?case by (auto simp: concat_take_Suc)
qed

theorem fetchAll_pages_witness:
  "2 \<le> length sample_pages \<and> serves_pages (paged_backend sample_pages) sample_pages
   \<and> cache_consistent (paged_backend sample_pages) (cache pag_init)
   \<and> paginatedTransactions pag_init = None \<and> 1 \<le> (3::nat) \<and> 3 \<le> length sample_pages
   \<and> paginatedTransactions ((fetchAll (paged_backend sample_pages) ^^ 3) pag_init) =
       Some \<lparr>data = [JNum 1, JNum 2, JNum 3, JNum 4, JNum 5], nextPage = Some (-1)\<rparr>"
proof -
  have l: "2 \<le> length sample_pages" "1 \<le> (3::nat)" "3 \<le> length sample_pages"
    by (simp_all add: sample_pages_def)
  note r = fetchAll_pages [OF l(1) paged_backend_serves pag_init_facts(1,2) l(2,3)]
  show ?thesis using l r paged_backend_serves pag_init_facts
    by (simp add: sample_pages_def)
qed

text \<open>
  C21. At the sentinel \<open>fetchAll\<close> is a no-op: no request, no
  change of any part of the state.
\<close>

theorem fetchAll_terminal:
  assumes "paginatedTransactions s = Some p" and "nextPage p = Some (-1)"
  shows "fetchAll net s = s"
  using assms by (simp add: fetchAll_at_end at_end_def)

theorem fetchAll_terminal_witness:
  "paginatedTransactions (pag_init\<lparr>paginatedTransactions := Some \<lparr>data = [], nextPage = Some (-1)\<rparr>\<rparr>)
     = Some \<lparr>data = [], nextPage = Some (-1)\<rparr>
   \<and> nextPage \<lparr>data = [], nextPage = Some (-1)\<rparr> = Some (-1)
   \<and> fetchAll (paged_backend sample_pages) (pag_init\<lparr>paginatedTransactions := Some \<lparr>data = [], nextPage = Some (-1)\<rparr>\<rparr>)
     = pag_init\<lparr>paginatedTransactions := Some \<lparr>data = [], nextPage = Some (-1)\<rparr>\<rparr>"
proof -
  let ?p = "\<lparr>data = [], nextPage = Some (-1)\<rparr> :: page_resp"
  have a: "paginatedTransactions (pag_init\<lparr>paginatedTransactions := Some ?p\<rparr>) = Some ?p" by simp
  have b: "nextPage ?p = Some (-1)" by simp
  show ?thesis using a b fetchAll_terminal [OF a b, of "paged_backend sample_pages"] by simp
qed

text \<open>
  C22. \<open>invalidateData\<close> empties the state whatever it held and
  leaves the cache alone, and the next \<open>fetchAll\<close> asks for page 0 and takes
  the answer as the whole new state.
\<close>

theorem invalidateData_restart:
  "paginatedTransactions (invalidateData s) = None \<and> cache (invalidateData s) = cache s
   \<and> fetchAll net (invalidateData s) =
       (case fetchWithCache PaginatedHook net PaginatedTransactions (page_request 0) (invalidateData s) of
          (r, s') \<Rightarrow> s'\<lparr>paginatedTransactions := map_option page_of_json r\<rparr>)"
proof -
  let ?f = "fetchWithCache PaginatedHook net PaginatedTransactions (page_request 0) (invalidateData s)"
  have pt: "paginatedTransactions (invalidateData s) = None" by (simp add: invalidateData_def)
  have "merge_page x None = x" for x by (simp add: merge_page_def split: option.splits)
  with pt have "fetchAll net (invalidateData s) =
      (snd ?f)\<lparr>paginatedTransactions := map_option page_of_json (fst ?f)\<rparr>"
    by (simp add: fetchAll_def at_end_def page_params_request case_prod_beta frame_simps)
  with pt show ?thesis by (simp add: case_prod_beta invalidateData_def)
qed

text \<open>
  C26. The accumulated data only grows, by appending: when the state
  holds data before and after a call, the old data is a prefix of the new.
\<close>

theorem fetchAll_append_only:
  assumes "paginatedTransactions s = Some p" and "paginatedTransactions (fetchAll net s) = Some p'"
  shows "prefix (data p) (data p')"
proof (cases "at_end (paginatedTransactions s)")
  case True
  with assms show ?thesis by (simp add: fetchAll_at_end)
next
  case False
  with assms show ?thesis
    by (auto simp: fetchAll_unfold merge_page_def split: option.splits if_splits)
qed

theorem fetchAll_append_only_witness:
  "paginatedTransactions (pag_init\<lparr>paginatedTransactions := Some (page_of sample_pages 0)\<rparr>) = Some (page_of sample_pages 0)
   \<and> paginatedTransactions (fetchAll (paged_backend sample_pages) (pag_init\<lparr>paginatedTransactions := Some (page_of sample_pages 0)\<rparr>))
       = Some \<lparr>data = [JNum 1, JNum 2, JNum 3], nextPage = Some 2\<rparr>
   \<and> prefix [JNum 1, JNum 2] [JNum 1, JNum 2, JNum 3]"
proof -
  let ?s = "pag_init\<lparr>paginatedTransactions := Some (page_of sample_pages 0)\<rparr>"
  have a: "paginatedTransactions ?s = Some (page_of sample_pages 0)" by simp
  have c: "cache_consistent (paged_backend sample_pages) (cache ?s)"
    by (simp add: pag_init_def cache_consistent_empty)
  have b: "paginatedTransactions (fetchAll (paged_backend sample_pages) ?s)
       = Some \<lparr>data = [JNum 1, JNum 2, JNum 3], nextPage = Some 2\<rparr>"
    using fetchAll_next [OF paged_backend_serves c a, of 1]
    by (simp add: page_of_def sample_pages_def)
  show ?thesis using a b fetchAll_append_only [OF a b] by (simp add: page_of_def sample_pages_def)
qed

section \<open>Where the code departs from the spec\<close>

text \<open>
  C27. When the data set is a single page, the first call stores the
  response as it is, with \<open>nextPage = null\<close>: the sentinel is never set, so the
  next call is no no-op but a request for page \<open>null\<close>, merged into the state.
\<close>

theorem fetchAll_single_page:
  assumes "serves_pages net [d]" and "cache_consistent net (cache s)" and "paginatedTransactions s = None"
  shows "paginatedTransactions (fetchAll net s) = Some \<lparr>data = d, nextPage = None\<rparr>
         \<and> fetchAll net (fetchAll net s) =
             (case fetchWithCache PaginatedHook net PaginatedTransactions (Some (JObj [(''page'', JNull)]))
                     (fetchAll net s) of
                (r, s') \<Rightarrow> s'\<lparr>paginatedTransactions :=
                              merge_page (map_option page_of_json r) (Some \<lparr>data = d, nextPage = None\<rparr>)\<rparr>)"
proof -
  have "net PaginatedTransactions (page_request 0) = Inr (page_to_json (page_of [d] 0))"
    using serves_pagesD [OF assms(1), of 0] by simp
  with assms(2,3) have first: "paginatedTransactions (fetchAll net s) = Some \<lparr>data = d, nextPage = None\<rparr>"
    by (simp add: fetchAll_step at_end_def page_params_request merge_page_def page_of_def)
  then show ?thesis
    by (simp add: fetchAll_def at_end_def page_params_def case_prod_beta frame_simps)
qed

theorem fetchAll_single_page_witness:
  "serves_pages (paged_backend [[JNum 9]]) [[JNum 9]]
   \<and> cache_consistent (paged_backend [[JNum 9]]) (cache pag_init) \<and> paginatedTransactions pag_init = None
   \<and> paginatedTransactions (fetchAll (paged_backend [[JNum 9]]) pag_init) = Some \<lparr>data = [JNum 9], nextPage = None\<rparr>
   \<and> paginatedTransactions (fetchAll (paged_backend [[JNum 9]]) (fetchAll (paged_backend [[JNum 9]]) pag_init)) = None"
proof -
  note r = fetchAll_single_page [OF paged_backend_serves pag_init_facts(1,2)]
  let ?s1 = "fetchAll (paged_backend [[JNum 9]]) pag_init"
  have c1: "cache_consistent (paged_backend [[JNum 9]]) (cache ?s1)"
    by (rule fetchAll_consistent) (rule pag_init_facts(1))
  have miss: "fst (fetchWithCache PaginatedHook (paged_backend [[JNum 9]]) PaginatedTransactions
      (Some (JObj [(''page'', JNull)])) ?s1) = None"
    using fetchWithCache_transparent [OF c1] by (simp add: paged_backend_def)
  show ?thesis using r paged_backend_serves pag_init_facts miss
    by (simp add: case_prod_beta merge_page_def frame_simps)
qed

text \<open>
  C28. A failed page fetch does not leave the state as it was (the
  spec's section 7 asks for "no change"): the updater receives \<open>null\<close> and
  returns it, so every page accumulated so far is discarded.
\<close>

theorem fetchAll_failure_discards:
  assumes "cache_consistent net (cache s)" and "paginatedTransactions s = Some p"
    and "nextPage p \<noteq> Some (-1)" and "net PaginatedTransactions (page_params (Some p)) = Inl err"
  shows "paginatedTransactions (fetchAll net s) = None"
proof -
  have "\<not> at_end (paginatedTransactions s)" using assms(2,3) by (simp add: at_end_def)
  with assms show ?thesis by (simp add: fetchAll_step merge_page_def)
qed

theorem fetchAll_failure_discards_witness:
  "cache_consistent (\<lambda>_ _. Inl (FetchFailed ''offline'')) (cache pag_init)
   \<and> paginatedTransactions (pag_init\<lparr>paginatedTransactions := Some (page_of sample_pages 0)\<rparr>) = Some (page_of sample_pages 0)
   \<and> nextPage (page_of sample_pages 0) \<noteq> Some (-1)
   \<and> (\<lambda>_ _. Inl (FetchFailed ''offline'')) PaginatedTransactions (page_params (Some (page_of sample_pages 0)))
       = (Inl (FetchFailed ''offline'') :: fetch_error + json)
   \<and> paginatedTransactions (fetchAll (\<lambda>_ _. Inl (FetchFailed ''offline''))
       (pag_init\<lparr>paginatedTransactions := Some (page_of sample_pages 0)\<rparr>)) = None"
proof -
  let ?net = "(\<lambda>_ _. Inl (FetchFailed ''offline'')) :: network"
  let ?s = "pag_init\<lparr>paginatedTransactions := Some (page_of sample_pages 0)\<rparr>"
  have c: "cache_consistent ?net (cache ?s)" by (simp add: pag_init_def cache_consistent_empty)
  have a: "paginatedTransactions ?s = Some (page_of sample_pages 0)" by simp
  have n: "nextPage (page_of sample_pages 0) \<noteq> Some (-1)" by (simp add: page_of_def sample_pages_def)
  have f: "?net PaginatedTransactions (page_params (Some (page_of sample_pages 0))) = Inl (FetchFailed ''offline'')"
    by simp
  show ?thesis using c a n f fetchAll_failure_discards [OF c a n f] by (simp add: pag_init_def)
qed

end
