(* ===== verification/Coordinator.thy ===== *)
theory Coordinator
  imports Pagination
begin

text \<open>
  The data-source coordinator, src/src/App.tsx: the unified transaction view
  (lines 24--27), \<open>loadAllTransactions\<close> (lines 32--42),
  \<open>loadTransactionsByEmployee\<close> (lines 48--56), the mount effect (lines 61--66),
  the filter's \<open>onChange\<close> (lines 84--95) and the "View More" click (lines
  107--113), with the guards under which the UI offers each event: the filter
  lists \<open>EMPTY_EMPLOYEE\<close> and the loaded employees (line 77), the button exists
  while there are transactions (line 103) and is disabled while the paginated
  hook is loading (line 106). The two hooks it calls besides the accumulator,
  \<open>useEmployees\<close> and \<open>useTransactionsByEmployee\<close>, are outside src/src and
  modelled from the spec: an uncached employee fetch and a cached fetch of one
  employee's transactions, each with its own loading flag.

  The App state extends the accumulator's record with the other hooks' data,
  the \<open>isLoading\<close> flag of the filter and the selected employee. A run is a
  sequence of UI events, each handled to completion before the next (the
  handlers await every step): the inductive \<open>reachable\<close>. The lemmas show the
  invariant that makes the coordinator correct (the two sources are never both
  loaded, and the one that is loaded is the one the filter selects), and two
  behaviours the spec does not describe: every "View More" in the all-employees
  mode fetches the employee list again, and a failed employee fetch re-enables
  the mount effect, which retries on its own. The section on requests shows
  that the by-employee fetch is served from the cache when it repeats and
  bounds the requests of one UI event; the last section proves the spec's
  end-to-end scenario (mount, select an employee, select all) for every
  backend that answers the three requests it makes.
\<close>

section \<open>Employees and the two spec-modelled hooks\<close>

text \<open>\<open>Employee\<close> (src/utils/types.ts): \<open>id\<close>, \<open>firstName\<close>, \<open>lastName\<close>.\<close>

record employee =
  emp_id :: string
  firstName :: string
  lastName :: string

text \<open>\<open>EMPTY_EMPLOYEE\<close> (src/utils/constants.ts): the "All Employees" entry, with the reserved id.\<close>

definition EMPTY_EMPLOYEE :: employee where
  "EMPTY_EMPLOYEE = \<lparr>emp_id = [], firstName = ''All'', lastName = ''Employees''\<rparr>"

definition employee_to_json :: "employee \<Rightarrow> json" where
  "employee_to_json e =
     JObj [(''id'', JStr (emp_id e)), (''firstName'', JStr (firstName e)), (''lastName'', JStr (lastName e))]"

definition str_field :: "(string \<times> json) list \<Rightarrow> string \<Rightarrow> string" where
  "str_field ms k = (case map_of ms k of Some (JStr v) \<Rightarrow> v | _ \<Rightarrow> [])"

text \<open>The typed reading of the JSON responses (\<open>Employee[]\<close>, \<open>Transaction[]\<close>).\<close>

definition employee_of_json :: "json \<Rightarrow> employee" where
  "employee_of_json j =
     (case j of
        JObj ms \<Rightarrow> \<lparr>emp_id = str_field ms ''id'', firstName = str_field ms ''firstName'',
                    lastName = str_field ms ''lastName''\<rparr>
      | _ \<Rightarrow> \<lparr>emp_id = [], firstName = [], lastName = []\<rparr>)"

definition employees_of_json :: "json \<Rightarrow> employee list" where
  "employees_of_json j = (case j of JArr xs \<Rightarrow> map employee_of_json xs | _ \<Rightarrow> [])"

definition txns_of_json :: "json \<Rightarrow> json list" where
  "txns_of_json j = (case j of JArr xs \<Rightarrow> xs | _ \<Rightarrow> [])"

record app_state = pag_state +
  employees :: "employee list option"
  transactionsByEmployee :: "json list option"
  isLoading :: bool
  currentEmployee :: "employee option"

text \<open>\<open>useEmployees().fetchAll\<close>: the employee list, always from the network.\<close>

definition employees_fetchAll :: "network \<Rightarrow> 'a app_state_scheme \<Rightarrow> 'a app_state_scheme" where
  "employees_fetchAll net s =
     (case fetchWithoutCache EmployeesHook net Employees None s of
        (r, s') \<Rightarrow> s'\<lparr>employees := map_option employees_of_json r\<rparr>)"

text \<open>\<open>useTransactionsByEmployee().fetchById(employeeId)\<close> and its \<open>invalidateData\<close>.\<close>

definition employee_params :: "string \<Rightarrow> json option" where
  "employee_params employeeId = Some (JObj [(''employeeId'', JStr employeeId)])"

definition fetchById :: "network \<Rightarrow> string \<Rightarrow> 'a app_state_scheme \<Rightarrow> 'a app_state_scheme" where
  "fetchById net employeeId s =
     (case fetchWithCache ByEmployeeHook net Transactions (employee_params employeeId) s of
        (r, s') \<Rightarrow> s'\<lparr>transactionsByEmployee := map_option txns_of_json r\<rparr>)"

definition invalidate_by_employee :: "'a app_state_scheme \<Rightarrow> 'a app_state_scheme" where
  "invalidate_by_employee s = s\<lparr>transactionsByEmployee := None\<rparr>"

section \<open>The App's handlers\<close>

text \<open>\<open>paginatedTransactions?.data ?? transactionsByEmployee ?? null\<close>.\<close>

definition transactions :: "'a app_state_scheme \<Rightarrow> json list option" where
  "transactions s =
     (case paginatedTransactions s of Some p \<Rightarrow> Some (data p) | None \<Rightarrow> transactionsByEmployee s)"

definition loadAllTransactions :: "network \<Rightarrow> 'a app_state_scheme \<Rightarrow> 'a app_state_scheme" where
  "loadAllTransactions net s =
     (let s1 = s\<lparr>isLoading := True\<rparr>;
          s2 = invalidate_by_employee s1;
          s3 = employees_fetchAll net s2;
          s4 = s3\<lparr>isLoading := False\<rparr>
      in fetchAll net s4)"

definition loadTransactionsByEmployee :: "network \<Rightarrow> string \<Rightarrow> 'a app_state_scheme \<Rightarrow> 'a app_state_scheme" where
  "loadTransactionsByEmployee net employeeId s = fetchById net employeeId (invalidateData s)"

text \<open>The mount effect: load everything while there are no employees and none are loading.\<close>

definition mount_effect :: "network \<Rightarrow> 'a app_state_scheme \<Rightarrow> 'a app_state_scheme" where
  "mount_effect net s =
     (if employees s = None \<and> \<not> loading s EmployeesHook then loadAllTransactions net s else s)"

definition onChange :: "network \<Rightarrow> employee option \<Rightarrow> 'a app_state_scheme \<Rightarrow> 'a app_state_scheme" where
  "onChange net newValue s =
     (case newValue of
        None \<Rightarrow> s
      | Some v \<Rightarrow>
          (if emp_id v = emp_id EMPTY_EMPLOYEE
           then loadAllTransactions net (s\<lparr>currentEmployee := None\<rparr>)
           else loadTransactionsByEmployee net (emp_id v) (s\<lparr>currentEmployee := Some v\<rparr>)))"

definition viewMore :: "network \<Rightarrow> 'a app_state_scheme \<Rightarrow> 'a app_state_scheme" where
  "viewMore net s =
     (case currentEmployee s of
        None \<Rightarrow> loadAllTransactions net s
      | Some e \<Rightarrow> loadTransactionsByEmployee net (emp_id e) s)"

section \<open>UI events and runs\<close>

text \<open>The filter's items: none until the employees are loaded.\<close>

definition select_items :: "'a app_state_scheme \<Rightarrow> employee list" where
  "select_items s = (case employees s of None \<Rightarrow> [] | Some es \<Rightarrow> EMPTY_EMPLOYEE # es)"

text \<open>
  \<open>parseItem\<close> (lines 80--83): the option the filter shows for an employee,
  its value the employee's id and its label \<open>${firstName} ${lastName}\<close>.
\<close>

record select_item =
  item_value :: string
  item_label :: string

definition parseItem :: "employee \<Rightarrow> select_item" where
  "parseItem item = \<lparr>item_value = emp_id item, item_label = firstName item @ '' '' @ lastName item\<rparr>"

datatype ui_event = Mount | Select "employee option" | ViewMore

definition ui_enabled :: "'a app_state_scheme \<Rightarrow> ui_event \<Rightarrow> bool" where
  "ui_enabled s ev =
     (case ev of
        Mount \<Rightarrow> True
      | Select None \<Rightarrow> True
      | Select (Some e) \<Rightarrow> e \<in> set (select_items s)
      | ViewMore \<Rightarrow> transactions s \<noteq> None \<and> \<not> loading s PaginatedHook)"

definition ui_step :: "network \<Rightarrow> 'a app_state_scheme \<Rightarrow> ui_event \<Rightarrow> 'a app_state_scheme" where
  "ui_step net s ev =
     (case ev of Mount \<Rightarrow> mount_effect net s | Select v \<Rightarrow> onChange net v s | ViewMore \<Rightarrow> viewMore net s)"

definition app_init :: app_state where
  "app_init =
     \<lparr>cache = Some [], loading = (\<lambda>_. False), requests = [], paginatedTransactions = None,
      employees = None, transactionsByEmployee = None, isLoading = False, currentEmployee = None\<rparr>"

text \<open>A session: UI events handled one after the other.\<close>

definition run_events :: "network \<Rightarrow> ui_event list \<Rightarrow> app_state \<Rightarrow> app_state" where
  "run_events net evs s = fold (\<lambda>ev s. ui_step net s ev) evs s"

inductive reachable :: "network \<Rightarrow> app_state \<Rightarrow> bool" for net where
  init: "reachable net app_init"
| step: "reachable net s \<Longrightarrow> ui_enabled s ev \<Longrightarrow> reachable net (ui_step net s ev)"

text \<open>
  A backend for examples: one employee, the three sample pages, and one
  transaction for that employee.
\<close>

definition ada :: employee where
  "ada = \<lparr>emp_id = ''e1'', firstName = ''Ada'', lastName = ''Lovelace''\<rparr>"

definition demo_backend :: network where
  "demo_backend e p =
     (case e of
        Employees \<Rightarrow> Inr (JArr [employee_to_json ada])
      | PaginatedTransactions \<Rightarrow> paged_backend sample_pages e p
      | Transactions \<Rightarrow>
          (if p = employee_params ''e1'' then Inr (JArr [JNum 42]) else Inl (FetchFailed ''unknown employee'')))"

text \<open>
  The network calls of a session that the cache should have made redundant:
  successful requests to the cached endpoints (all but the employee list). The
  log invariant: no such request was sent twice, and each of them has its
  entry in the cache.
\<close>

definition cached_requests :: "network \<Rightarrow> 'a fetch_state_scheme \<Rightarrow> (endpoint \<times> json option) list" where
  "cached_requests net s = filter (\<lambda>x. fst x \<noteq> Employees \<and> \<not> isl (net (fst x) (snd x))) (requests s)"

definition log_inv :: "network \<Rightarrow> 'a fetch_state_scheme \<Rightarrow> bool" where
  "log_inv net s \<longleftrightarrow>
     distinct (cached_requests net s)
     \<and> list_all (\<lambda>x. cache_get (cache s) (getCacheKey (fst x) (snd x)) \<noteq> None) (cached_requests net s)"

text \<open>
  The coordinator's invariant: the two sources are never both loaded; the
  source that is loaded is the one the filter selects, and an employee is only
  selected while the employee list is there; between events no request is in
  flight; and the cache agrees with the network.
\<close>

definition coord_inv :: "network \<Rightarrow> 'a app_state_scheme \<Rightarrow> bool" where
  "coord_inv net s \<longleftrightarrow>
     (paginatedTransactions s = None \<or> transactionsByEmployee s = None)
     \<and> (currentEmployee s = None \<longrightarrow> transactionsByEmployee s = None)
     \<and> (currentEmployee s \<noteq> None \<longrightarrow> paginatedTransactions s = None \<and> employees s \<noteq> None)
     \<and> (\<forall>h. \<not> loading s h) \<and> \<not> isLoading s
     \<and> cache_consistent net (cache s)"

text \<open>
  The log of network calls grows by appending, by at most \<open>k\<close> calls.
\<close>

definition log_ext :: "nat \<Rightarrow> 'a fetch_state_scheme \<Rightarrow> 'b fetch_state_scheme \<Rightarrow> bool" where
  "log_ext k s s' \<longleftrightarrow> prefix (requests s) (requests s') \<and> length (requests s') \<le> length (requests s) + k"

section \<open>Frames\<close>

lemma app_fields_fetchWithCache [frame_simps]:
  "employees (snd (fetchWithCache h net e p s)) = employees s"
  "transactionsByEmployee (snd (fetchWithCache h net e p s)) = transactionsByEmployee s"
  "isLoading (snd (fetchWithCache h net e p s)) = isLoading s"
  "currentEmployee (snd (fetchWithCache h net e p s)) = currentEmployee s"
  by (subst fetchWithCache_frame, simp)+

lemma app_fields_fetchWithoutCache [frame_simps]:
  "employees (snd (fetchWithoutCache h net e p s)) = employees s"
  "transactionsByEmployee (snd (fetchWithoutCache h net e p s)) = transactionsByEmployee s"
  "isLoading (snd (fetchWithoutCache h net e p s)) = isLoading s"
  "currentEmployee (snd (fetchWithoutCache h net e p s)) = currentEmployee s"
  "paginatedTransactions (snd (fetchWithoutCache h net e p s)) = paginatedTransactions s"
  by (subst fetchWithoutCache_frame, simp)+

lemma app_fields_fetchAll [frame_simps]:
  "employees (fetchAll net s) = employees s"
  "transactionsByEmployee (fetchAll net s) = transactionsByEmployee s"
  "isLoading (fetchAll net s) = isLoading s"
  "currentEmployee (fetchAll net s) = currentEmployee s"
  by (simp_all add: fetchAll_def case_prod_beta frame_simps)

lemma loading_fetchAll: "\<not> loading s h \<Longrightarrow> \<not> loading (fetchAll net s) h"
  by (simp add: fetchAll_def case_prod_beta frame_simps)

section \<open>The handlers, field by field\<close>

lemma loadAllTransactions_fields:
  "transactionsByEmployee (loadAllTransactions net s) = None"
  "currentEmployee (loadAllTransactions net s) = currentEmployee s"
  "isLoading (loadAllTransactions net s) = False"
  "employees (loadAllTransactions net s) =
     (case net Employees None of Inl _ \<Rightarrow> None | Inr r \<Rightarrow> Some (employees_of_json r))"
  by (simp_all add: loadAllTransactions_def Let_def employees_fetchAll_def invalidate_by_employee_def
      fetchWithoutCache_eq case_prod_beta frame_simps split: sum.splits)

lemma loadAllTransactions_loading:
  "\<not> loading s h \<Longrightarrow> \<not> loading (loadAllTransactions net s) h"
  by (simp add: loadAllTransactions_def Let_def employees_fetchAll_def invalidate_by_employee_def
      case_prod_beta frame_simps loading_fetchAll)

lemma loadAllTransactions_consistent:
  "cache_consistent net (cache s) \<Longrightarrow> cache_consistent net (cache (loadAllTransactions net s))"
  by (simp add: loadAllTransactions_def Let_def employees_fetchAll_def invalidate_by_employee_def
      case_prod_beta frame_simps fetchAll_consistent)

lemma loadTransactionsByEmployee_fields:
  "paginatedTransactions (loadTransactionsByEmployee net i s) = None"
  "currentEmployee (loadTransactionsByEmployee net i s) = currentEmployee s"
  "employees (loadTransactionsByEmployee net i s) = employees s"
  "isLoading (loadTransactionsByEmployee net i s) = isLoading s"
  "loading (loadTransactionsByEmployee net i s) = (loading s)(ByEmployeeHook := False)"
  by (simp_all add: loadTransactionsByEmployee_def fetchById_def invalidateData_def
      case_prod_beta frame_simps)

lemma loadTransactionsByEmployee_consistent:
  "cache_consistent net (cache s) \<Longrightarrow> cache_consistent net (cache (loadTransactionsByEmployee net i s))"
  by (simp add: loadTransactionsByEmployee_def fetchById_def invalidateData_def case_prod_beta
      fetchWithCache_consistent)

lemmas handler_fields = loadAllTransactions_fields loadTransactionsByEmployee_fields

section \<open>The invariant\<close>

lemma coord_inv_init: "coord_inv net app_init"
  by (simp add: coord_inv_def app_init_def cache_consistent_empty)

lemma coord_inv_loadAll:
  assumes "\<forall>h. \<not> loading s h" and "cache_consistent net (cache s)" and "currentEmployee s = None"
  shows "coord_inv net (loadAllTransactions net s)"
  using assms
  by (simp add: coord_inv_def handler_fields loadAllTransactions_loading loadAllTransactions_consistent)

lemma coord_inv_loadByEmployee:
  assumes "\<forall>h. \<not> loading s h" and "\<not> isLoading s" and "cache_consistent net (cache s)"
    and "currentEmployee s = Some e" and "employees s \<noteq> None"
  shows "coord_inv net (loadTransactionsByEmployee net i s)"
  using assms
  by (simp add: coord_inv_def handler_fields loadTransactionsByEmployee_consistent)

lemma select_items_loaded: "e \<in> set (select_items s) \<Longrightarrow> employees s \<noteq> None"
  by (cases "employees s") (simp_all add: select_items_def)

lemma coord_inv_step:
  assumes inv: "coord_inv net s" and en: "ui_enabled s ev"
  shows "coord_inv net (ui_step net s ev)"
proof -
  from inv have quiet: "\<forall>h. \<not> loading s h" "\<not> isLoading s" "cache_consistent net (cache s)"
    by (simp_all add: coord_inv_def)
  show ?thesis
  proof (cases ev)
    case Mount
    show ?thesis
    proof (cases "employees s = None \<and> \<not> loading s EmployeesHook")
      case True
      with inv have "currentEmployee s = None" by (auto simp: coord_inv_def)
      with quiet True Mount show ?thesis
        by (simp add: ui_step_def mount_effect_def coord_inv_loadAll)
    next
      case False
      then have "mount_effect net s = s" by (auto simp: mount_effect_def)
      with Mount inv show ?thesis by (simp add: ui_step_def)
    qed
  next
    case (Select v)
    show ?thesis
    proof (cases v)
      case None
      with Select inv show ?thesis by (simp add: ui_step_def onChange_def)
    next
      case (Some e)
      with Select en have "employees s \<noteq> None"
        by (simp add: ui_enabled_def select_items_loaded)
      with Select Some quiet show ?thesis
        by (simp add: ui_step_def onChange_def coord_inv_loadAll coord_inv_loadByEmployee)
    qed
  next
    case ViewMore
    show ?thesis
    proof (cases "currentEmployee s")
      case None
      with ViewMore quiet show ?thesis by (simp add: ui_step_def viewMore_def coord_inv_loadAll)
    next
      case (Some e)
      with inv have "employees s \<noteq> None" by (simp add: coord_inv_def)
      with ViewMore Some quiet show ?thesis
        by (simp add: ui_step_def viewMore_def coord_inv_loadByEmployee)
    qed
  qed
qed

lemma reachable_coord_inv: "reachable net s \<Longrightarrow> coord_inv net s"
proof (induction rule: reachable.induct)
  case init
  show ?case by (rule coord_inv_init)
next
  case (step s ev)
  from step.IH step.hyps(2) show ?case by (rule coord_inv_step)
qed

lemma loadAllTransactions_employees_loading:
  "loading (loadAllTransactions net s) EmployeesHook = False"
  by (simp add: loadAllTransactions_def Let_def employees_fetchAll_def invalidate_by_employee_def
      fetchAll_def case_prod_beta frame_simps)

lemma loadAllTransactions_requests:
  "prefix (requests s @ [(Employees, None)]) (requests (loadAllTransactions net s))"
  by (simp add: loadAllTransactions_def Let_def employees_fetchAll_def invalidate_by_employee_def
      fetchWithoutCache_eq fetchAll_def fetchWithCache_eq wrapped_fetch_and_store case_prod_beta
      split: sum.splits option.splits)

lemma reachable_after_mount: "reachable net (ui_step net app_init Mount)"
  by (rule reachable.step [OF reachable.init]) (simp add: ui_enabled_def)

section \<open>What the coordinator promises\<close>

text \<open>
  C1. In every state a run of UI events reaches, at most one of
  the two sources holds data: the paginated list of all transactions or the
  list of one employee's transactions.
\<close>

theorem sources_exclusive:
  "reachable net s \<Longrightarrow> paginatedTransactions s = None \<or> transactionsByEmployee s = None"
  by (drule reachable_coord_inv) (simp add: coord_inv_def)

theorem sources_exclusive_witness:
  "reachable demo_backend (ui_step demo_backend app_init Mount)
   \<and> (paginatedTransactions (ui_step demo_backend app_init Mount) = None
      \<or> transactionsByEmployee (ui_step demo_backend app_init Mount) = None)"
  using reachable_after_mount sources_exclusive [OF reachable_after_mount] by simp

text \<open>
  C2. In every reachable state the unified view shows the source
  the filter selects: the paginated data under "All Employees", the selected
  employee's transactions otherwise.
\<close>

theorem transactions_view:
  "reachable net s \<Longrightarrow>
   transactions s = (case currentEmployee s of
                       None \<Rightarrow> map_option data (paginatedTransactions s)
                     | Some _ \<Rightarrow> transactionsByEmployee s)"
  by (drule reachable_coord_inv) (auto simp: coord_inv_def transactions_def split: option.splits)

theorem transactions_view_witness:
  "reachable demo_backend (ui_step demo_backend app_init Mount)
   \<and> transactions (ui_step demo_backend app_init Mount) =
       (case currentEmployee (ui_step demo_backend app_init Mount) of
          None \<Rightarrow> map_option data (paginatedTransactions (ui_step demo_backend app_init Mount))
        | Some _ \<Rightarrow> transactionsByEmployee (ui_step demo_backend app_init Mount))"
  using reachable_after_mount transactions_view [OF reachable_after_mount] by simp

text \<open>
  C25. Between events nothing is loading: the filter's
  \<open>isLoading\<close> and every hook's loading flag are false in every reachable state,
  so none of them sticks at true.
\<close>

theorem reachable_quiescent:
  "reachable net s \<Longrightarrow> \<not> isLoading s \<and> (\<forall>h. \<not> loading s h)"
  by (drule reachable_coord_inv) (simp add: coord_inv_def)

theorem reachable_quiescent_witness:
  "reachable demo_backend (ui_step demo_backend app_init Mount)
   \<and> \<not> isLoading (ui_step demo_backend app_init Mount)
   \<and> (\<forall>h. \<not> loading (ui_step demo_backend app_init Mount) h)"
  using reachable_after_mount reachable_quiescent [OF reachable_after_mount] by simp

text \<open>
  C23. Choosing an employee (any entry but "All Employees") empties
  the paginated source, records the selection, and loads that employee's
  transactions: with a cache that agrees with the network, exactly the
  network's list for that employee.
\<close>

theorem onChange_select_employee:
  assumes "emp_id e \<noteq> emp_id EMPTY_EMPLOYEE" and "cache_consistent net (cache s)"
  shows "paginatedTransactions (onChange net (Some e) s) = None
         \<and> currentEmployee (onChange net (Some e) s) = Some e
         \<and> transactionsByEmployee (onChange net (Some e) s) =
             (case net Transactions (employee_params (emp_id e)) of
                Inl _ \<Rightarrow> None | Inr r \<Rightarrow> Some (txns_of_json r))"
proof -
  let ?s = "invalidateData (s\<lparr>currentEmployee := Some e\<rparr>)"
  have c: "cache_consistent net (cache ?s)" using assms(2) by (simp add: invalidateData_def)
  show ?thesis
    using assms(1) fetchWithCache_transparent [OF c, of ByEmployeeHook Transactions]
    by (simp add: onChange_def loadTransactionsByEmployee_def fetchById_def case_prod_beta
        frame_simps invalidateData_def split: sum.splits)
qed

theorem onChange_select_employee_witness:
  "emp_id ada \<noteq> emp_id EMPTY_EMPLOYEE \<and> cache_consistent demo_backend (cache app_init)
   \<and> paginatedTransactions (onChange demo_backend (Some ada) app_init) = None
   \<and> currentEmployee (onChange demo_backend (Some ada) app_init) = Some ada
   \<and> transactionsByEmployee (onChange demo_backend (Some ada) app_init) = Some [JNum 42]"
proof -
  have a: "emp_id ada \<noteq> emp_id EMPTY_EMPLOYEE" by (simp add: ada_def EMPTY_EMPLOYEE_def)
  have c: "cache_consistent demo_backend (cache app_init)"
    by (simp add: app_init_def cache_consistent_empty)
  show ?thesis using a c onChange_select_employee [OF a c]
    by (simp add: demo_backend_def ada_def txns_of_json_def)
qed

text \<open>
  C24. Choosing "All Employees" clears the selection, empties the
  by-employee source, fetches the employee list (from the network, before
  anything else) and then the next page of all transactions.
\<close>

theorem onChange_select_all:
  assumes "emp_id e = emp_id EMPTY_EMPLOYEE"
  shows "transactionsByEmployee (onChange net (Some e) s) = None
         \<and> currentEmployee (onChange net (Some e) s) = None
         \<and> \<not> isLoading (onChange net (Some e) s)
         \<and> prefix (requests s @ [(Employees, None)]) (requests (onChange net (Some e) s))"
  using assms loadAllTransactions_requests [of "s\<lparr>currentEmployee := None\<rparr>" net]
  by (simp add: onChange_def handler_fields)

theorem onChange_select_all_witness:
  "emp_id EMPTY_EMPLOYEE = emp_id EMPTY_EMPLOYEE
   \<and> transactionsByEmployee (onChange demo_backend (Some EMPTY_EMPLOYEE) app_init) = None
   \<and> prefix [(Employees, None)] (requests (onChange demo_backend (Some EMPTY_EMPLOYEE) app_init))"
  using onChange_select_all [of EMPTY_EMPLOYEE demo_backend app_init] by (simp add: app_init_def)

section \<open>Behaviour the spec does not describe\<close>

text \<open>
  C29. "View More" under "All Employees" runs the whole
  \<open>loadAllTransactions\<close>: besides the next page it fetches the employee list
  from the network again (and replaces it with the answer), on every click;
  the spec's \<open>loadMore\<close> only advances the accumulator.
\<close>

theorem viewMore_refetches_employees:
  assumes "currentEmployee s = None"
  shows "prefix (requests s @ [(Employees, None)]) (requests (viewMore net s))
         \<and> employees (viewMore net s) =
             (case net Employees None of Inl _ \<Rightarrow> None | Inr r \<Rightarrow> Some (employees_of_json r))"
  using assms loadAllTransactions_requests [of s net]
  by (simp add: viewMore_def handler_fields)

theorem viewMore_refetches_employees_witness:
  "currentEmployee app_init = None
   \<and> prefix [(Employees, None)] (requests (viewMore demo_backend app_init))
   \<and> employees (viewMore demo_backend app_init) = Some [ada]"
proof -
  have c: "currentEmployee app_init = None" by (simp add: app_init_def)
  have j: "employees_of_json (JArr [employee_to_json ada]) = [ada]"
    by (simp add: employees_of_json_def employee_of_json_def employee_to_json_def str_field_def ada_def)
  show ?thesis using c j viewMore_refetches_employees [OF c, of demo_backend]
    by (simp add: app_init_def demo_backend_def)
qed

text \<open>
  C30. When the employee fetch fails, \<open>loadAllTransactions\<close> leaves
  no employees and no employee request in flight, which is exactly the mount
  effect's condition: the effect runs \<open>loadAllTransactions\<close> again by itself,
  and again after each further failure, although the spec says no retry is
  attempted automatically.
\<close>

theorem mount_effect_retries:
  assumes "net Employees None = Inl err"
  shows "employees (loadAllTransactions net s) = None
         \<and> mount_effect net (loadAllTransactions net s) = loadAllTransactions net (loadAllTransactions net s)"
  using assms
  by (simp add: mount_effect_def handler_fields loadAllTransactions_employees_loading)

theorem mount_effect_retries_witness:
  "(\<lambda>_ _. Inl (FetchFailed ''offline'') :: fetch_error + json) Employees None = Inl (FetchFailed ''offline'')
   \<and> employees (loadAllTransactions (\<lambda>_ _. Inl (FetchFailed ''offline'')) app_init) = None
   \<and> mount_effect (\<lambda>_ _. Inl (FetchFailed ''offline'')) (loadAllTransactions (\<lambda>_ _. Inl (FetchFailed ''offline'')) app_init)
     = loadAllTransactions (\<lambda>_ _. Inl (FetchFailed ''offline''))
         (loadAllTransactions (\<lambda>_ _. Inl (FetchFailed ''offline'')) app_init)"
proof -
  have n: "(\<lambda>_ _. Inl (FetchFailed ''offline'') :: fetch_error + json) Employees None = Inl (FetchFailed ''offline'')"
    by simp
  show ?thesis using n mount_effect_retries [OF n, of app_init] by simp
qed

section \<open>No redundant network calls\<close>

lemma cache_get_set_other:
  "cache_get c k \<noteq> None \<Longrightarrow> cache_get (cache_set c k' v) k \<noteq> None"
  by (cases c) (simp_all add: cache_get_def cache_set_def update_conv')

lemma cache_get_set_same:
  "c \<noteq> None \<Longrightarrow> cache_get (cache_set c k v) k = Some v"
  by (cases c) (simp_all add: cache_get_def cache_set_def update_conv')

lemma log_inv_fetchWithCache:
  assumes "log_inv net s" and "cache_consistent net (cache s)" and "cache s \<noteq> None"
  shows "log_inv net (snd (fetchWithCache h net e p s))"
proof (cases "cache_get (cache s) (getCacheKey e p)")
  case (Some v)
  with cache_consistent_hit [OF assms(2)] obtain r where "v = stringify r" by blast
  with Some assms(1) show ?thesis
    by (simp add: fetchWithCache_eq log_inv_def cached_requests_def)
next
  case None
  have notin: "(e, p) \<notin> set (cached_requests net s)"
    using None assms(1) by (auto simp: log_inv_def list_all_iff)
  show ?thesis
  proof (cases "net e p")
    case (Inl err)
    with None assms(1) show ?thesis
      by (simp add: fetchWithCache_eq wrapped_fetch_and_store log_inv_def cached_requests_def)
  next
    case (Inr r)
    let ?c = "cache_set (cache s) (getCacheKey e p) (stringify r)"
    have old: "list_all (\<lambda>x. cache_get ?c (getCacheKey (fst x) (snd x)) \<noteq> None) (cached_requests net s)"
      using assms(1) cache_get_set_other by (fastforce simp: log_inv_def list_all_iff)
    have new: "cache_get ?c (getCacheKey e p) \<noteq> None"
      using assms(3) by (simp add: cache_get_set_same)
    have "cached_requests net (snd (fetchWithCache h net e p s)) =
            cached_requests net s @ (if e \<noteq> Employees then [(e, p)] else [])"
      using None Inr by (simp add: fetchWithCache_eq wrapped_fetch_and_store cached_requests_def)
    moreover have "cache (snd (fetchWithCache h net e p s)) = ?c"
      using None Inr by (simp add: fetchWithCache_eq wrapped_fetch_and_store)
    ultimately show ?thesis
      using assms(1) notin old new by (simp add: log_inv_def)
  qed
qed

lemma log_inv_fetchWithoutCache:
  "log_inv net s \<Longrightarrow> log_inv net (snd (fetchWithoutCache h net Employees p s))"
  by (simp add: fetchWithoutCache_eq log_inv_def cached_requests_def split: sum.splits)

lemma cache_present_fetchWithCache:
  "cache s \<noteq> None \<Longrightarrow> cache (snd (fetchWithCache h net e p s)) \<noteq> None"
  by (auto simp: fetchWithCache_eq wrapped_fetch_and_store cache_set_def split: option.splits sum.splits)

text \<open>The log invariant together with a present cache, through each operation of a session.\<close>

definition log_ok :: "network \<Rightarrow> 'a fetch_state_scheme \<Rightarrow> bool" where
  "log_ok net s \<longleftrightarrow> log_inv net s \<and> cache s \<noteq> None \<and> cache_consistent net (cache s)"

lemma log_ok_fetchWithCache: "log_ok net s \<Longrightarrow> log_ok net (snd (fetchWithCache h net e p s))"
  by (simp add: log_ok_def log_inv_fetchWithCache cache_present_fetchWithCache fetchWithCache_consistent)

lemma log_ok_fields [simp]:
  "log_ok net (s\<lparr>isLoading := b\<rparr>) = log_ok net s"
  "log_ok net (s\<lparr>currentEmployee := c\<rparr>) = log_ok net s"
  "log_ok net (s\<lparr>transactionsByEmployee := t\<rparr>) = log_ok net s"
  "log_ok net (s\<lparr>employees := es\<rparr>) = log_ok net s"
  by (simp_all add: log_ok_def log_inv_def cached_requests_def)

lemma log_ok_paginated [simp]:
  "log_ok net (s\<lparr>paginatedTransactions := pt\<rparr>) = log_ok net s"
  by (simp add: log_ok_def log_inv_def cached_requests_def)

lemma log_ok_fetchAll: "log_ok net s \<Longrightarrow> log_ok net (fetchAll net s)"
  by (simp add: fetchAll_def case_prod_beta log_ok_fetchWithCache)

lemma log_ok_loadAll: "log_ok net s \<Longrightarrow> log_ok net (loadAllTransactions net s)"
proof -
  assume a: "log_ok net s"
  let ?s2 = "invalidate_by_employee (s\<lparr>isLoading := True\<rparr>)"
  have "log_ok net ?s2" using a by (simp add: invalidate_by_employee_def)
  then have "log_ok net (snd (fetchWithoutCache EmployeesHook net Employees None ?s2))"
    by (simp add: log_ok_def log_inv_fetchWithoutCache fetchWithoutCache_cache)
  then have "log_ok net (employees_fetchAll net ?s2)"
    by (simp add: employees_fetchAll_def case_prod_beta)
  then show ?thesis
    by (simp add: loadAllTransactions_def Let_def log_ok_fetchAll)
qed

lemma log_ok_loadByEmployee: "log_ok net s \<Longrightarrow> log_ok net (loadTransactionsByEmployee net i s)"
  by (simp add: loadTransactionsByEmployee_def fetchById_def invalidateData_def case_prod_beta
      log_ok_fetchWithCache)

lemma log_ok_step: "log_ok net s \<Longrightarrow> log_ok net (ui_step net s ev)"
  by (cases ev)
    (simp_all add: ui_step_def mount_effect_def onChange_def viewMore_def log_ok_loadAll
      log_ok_loadByEmployee split: option.splits)

lemma reachable_log_ok: "reachable net s \<Longrightarrow> log_ok net s"
proof (induction rule: reachable.induct)
  case init
  show ?case
    by (simp add: log_ok_def log_inv_def cached_requests_def app_init_def cache_consistent_empty)
next
  case (step s ev)
  then show ?case by (simp add: log_ok_step)
qed

section \<open>The cache saves every redundant call\<close>

text \<open>
  C7. In every session, no successful request to a cached endpoint
  (the paginated transactions or one employee's transactions) reaches the
  network twice: the cache answers every repetition. Only failed requests and
  the always-fresh employee list are sent again.
\<close>

theorem no_redundant_requests: "reachable net s \<Longrightarrow> distinct (cached_requests net s)"
  by (drule reachable_log_ok) (simp add: log_ok_def log_inv_def)

theorem no_redundant_requests_witness:
  "reachable demo_backend (ui_step demo_backend (ui_step demo_backend app_init Mount) (Select (Some ada)))
   \<and> distinct (cached_requests demo_backend
       (ui_step demo_backend (ui_step demo_backend app_init Mount) (Select (Some ada))))"
proof -
  have "ui_enabled (ui_step demo_backend app_init Mount) (Select (Some ada))" by code_simp
  then have r: "reachable demo_backend (ui_step demo_backend (ui_step demo_backend app_init Mount) (Select (Some ada)))"
    by (rule reachable.step [OF reachable_after_mount])
  show ?thesis using no_redundant_requests [OF r] r by simp
qed

section \<open>Network calls per event\<close>

lemma log_ext_same: "requests s' = requests s \<Longrightarrow> log_ext k s s'"
  by (simp add: log_ext_def)

lemma log_ext_trans: "log_ext a s t \<Longrightarrow> log_ext b t u \<Longrightarrow> log_ext (a + b) s u"
  by (auto simp: log_ext_def intro: prefix_order.trans)

lemma log_ext_fetchWithCache: "log_ext 1 s (snd (fetchWithCache h net e p s))"
  by (auto simp: log_ext_def fetchWithCache_eq wrapped_fetch_and_store split: option.splits sum.splits)

lemma log_ext_fetchWithoutCache: "log_ext 1 s (snd (fetchWithoutCache h net e p s))"
  by (auto simp: log_ext_def fetchWithoutCache_eq split: sum.splits)

lemma log_ext_fetchAll: "log_ext 1 s (fetchAll net s)"
  using log_ext_fetchWithCache [of s]
  by (simp add: fetchAll_def case_prod_beta log_ext_def)

lemma log_ext_loadAll: "log_ext 2 s (loadAllTransactions net s)"
proof -
  let ?s2 = "invalidate_by_employee (s\<lparr>isLoading := True\<rparr>)"
  have "log_ext 1 s (employees_fetchAll net ?s2)"
    using log_ext_fetchWithoutCache [of ?s2]
    by (simp add: employees_fetchAll_def case_prod_beta log_ext_def invalidate_by_employee_def)
  then have "log_ext 1 s ((employees_fetchAll net ?s2)\<lparr>isLoading := False\<rparr>)"
    by (simp add: log_ext_def)
  from log_ext_trans [OF this log_ext_fetchAll [of _ net]] show ?thesis
    by (simp add: loadAllTransactions_def Let_def numeral_2_eq_2)
qed

lemma log_ext_loadByEmployee: "log_ext 1 s (loadTransactionsByEmployee net i s)"
  using log_ext_fetchWithCache [of "invalidateData s"]
  by (simp add: loadTransactionsByEmployee_def fetchById_def invalidateData_def case_prod_beta log_ext_def)

lemma log_ext_mono: "log_ext a s t \<Longrightarrow> a \<le> b \<Longrightarrow> log_ext b s t"
  by (simp add: log_ext_def)

lemma log_ext_select:
  "log_ext 2 s (loadAllTransactions net (s\<lparr>currentEmployee := c\<rparr>))"
  "log_ext 2 s (loadTransactionsByEmployee net i (s\<lparr>currentEmployee := c\<rparr>))"
  using log_ext_loadAll [of "s\<lparr>currentEmployee := c\<rparr>" net]
    log_ext_loadByEmployee [of "s\<lparr>currentEmployee := c\<rparr>" net i]
  by (simp_all add: log_ext_def)

text \<open>
  C17. Every UI event, handled to completion, only appends to the log
  of network calls, and appends at most two: the employee list and one page
  for the all-employees mode, one employee's transactions otherwise, none on a
  cache hit or when the guards keep the handler from running.
\<close>

theorem ui_step_requests_bound: "log_ext 2 s (ui_step net s ev)"
  by (cases ev) (auto simp: ui_step_def mount_effect_def onChange_def viewMore_def log_ext_same
      log_ext_loadAll log_ext_select intro: log_ext_mono [OF log_ext_loadByEmployee] split: option.splits)

section \<open>The reserved id\<close>

text \<open>
  C31. The filter tells "All Employees" apart from an employee only by
  the id, and \<open>EMPTY_EMPLOYEE\<close>'s id is the empty string: an employee whose id
  is empty gets the same option value, and choosing them clears the selection
  and loads all transactions, exactly as choosing "All Employees" does.
\<close>

theorem onChange_empty_id:
  assumes "emp_id e = emp_id EMPTY_EMPLOYEE"
  shows "item_value (parseItem e) = item_value (parseItem EMPTY_EMPLOYEE)
         \<and> onChange net (Some e) s = onChange net (Some EMPTY_EMPLOYEE) s
         \<and> currentEmployee (onChange net (Some e) s) = None"
  using assms by (simp add: parseItem_def onChange_def loadAllTransactions_fields)

theorem onChange_empty_id_witness:
  "emp_id \<lparr>emp_id = [], firstName = ''Grace'', lastName = ''Hopper''\<rparr> = emp_id EMPTY_EMPLOYEE
   \<and> onChange demo_backend (Some \<lparr>emp_id = [], firstName = ''Grace'', lastName = ''Hopper''\<rparr>) app_init
     = onChange demo_backend (Some EMPTY_EMPLOYEE) app_init"
proof -
  have h: "emp_id \<lparr>emp_id = [], firstName = ''Grace'', lastName = ''Hopper''\<rparr> = emp_id EMPTY_EMPLOYEE"
    by (simp add: EMPTY_EMPLOYEE_def)
  show ?thesis using onChange_empty_id [OF h] h by blast
qed

section \<open>The spec's end-to-end scenario\<close>

text \<open>
  The three steps of the scenario, for a backend that answers the employee
  list, page 0 and the chosen employee's transactions.
\<close>

lemma scenario_mount:
  assumes "net Employees None = Inr es" and "net PaginatedTransactions (page_request 0) = Inr j0"
  shows "employees (ui_step net app_init Mount) = Some (employees_of_json es)"
    "requests (ui_step net app_init Mount) = [(Employees, None), (PaginatedTransactions, page_request 0)]"
    "cache (ui_step net app_init Mount) = Some [(getCacheKey PaginatedTransactions (page_request 0), stringify j0)]"
  using assms
  by (simp_all add: ui_step_def mount_effect_def app_init_def loadAllTransactions_def Let_def
      employees_fetchAll_def invalidate_by_employee_def fetchWithoutCache_eq fetchAll_def at_end_def
      fetchWithCache_eq wrapped_fetch_and_store cache_get_def cache_set_def page_params_def page_request_def
      merge_page_def)

lemma scenario_select:
  assumes "cache s = Some [(getCacheKey PaginatedTransactions (page_request 0), v)]"
    and "emp_id e \<noteq> emp_id EMPTY_EMPLOYEE" and "net Transactions (employee_params (emp_id e)) = Inr t"
  shows "employees (ui_step net s (Select (Some e))) = employees s"
    "requests (ui_step net s (Select (Some e))) = requests s @ [(Transactions, employee_params (emp_id e))]"
    "cache_get (cache (ui_step net s (Select (Some e)))) (getCacheKey PaginatedTransactions (page_request 0)) = Some v"
    "paginatedTransactions (ui_step net s (Select (Some e))) = None"
    "transactionsByEmployee (ui_step net s (Select (Some e))) = Some (txns_of_json t)"
proof -
  have "getCacheKey Transactions (employee_params (emp_id e)) \<noteq> getCacheKey PaginatedTransactions (page_request 0)"
    using getCacheKey_endpoint by blast
  then show "employees (ui_step net s (Select (Some e))) = employees s"
    "requests (ui_step net s (Select (Some e))) = requests s @ [(Transactions, employee_params (emp_id e))]"
    "cache_get (cache (ui_step net s (Select (Some e)))) (getCacheKey PaginatedTransactions (page_request 0)) = Some v"
    "paginatedTransactions (ui_step net s (Select (Some e))) = None"
    "transactionsByEmployee (ui_step net s (Select (Some e))) = Some (txns_of_json t)"
    using assms
    by (simp_all add: ui_step_def onChange_def loadTransactionsByEmployee_def fetchById_def invalidateData_def
        fetchWithCache_eq wrapped_fetch_and_store cache_get_def cache_set_def case_prod_beta)
qed

lemma scenario_select_all:
  assumes "cache_get (cache s) (getCacheKey PaginatedTransactions (page_request 0)) = Some (stringify j0)"
    and "paginatedTransactions s = None" and "net Employees None = Inr es"
  shows "requests (ui_step net s (Select (Some EMPTY_EMPLOYEE))) = requests s @ [(Employees, None)]"
    "paginatedTransactions (ui_step net s (Select (Some EMPTY_EMPLOYEE))) = Some (page_of_json j0)"
    "transactionsByEmployee (ui_step net s (Select (Some EMPTY_EMPLOYEE))) = None"
  using assms
  by (simp_all add: ui_step_def onChange_def loadAllTransactions_def Let_def employees_fetchAll_def
      invalidate_by_employee_def fetchWithoutCache_eq fetchAll_def at_end_def fetchWithCache_eq
      page_params_def page_request_def merge_page_def case_prod_beta)

text \<open>
  C6. The spec's end-to-end scenario (section 8), for every backend that
  answers the employee list (holding an employee \<open>e\<close> other than "All
  Employees"), page 0 and \<open>e\<close>'s transactions: from the empty cache, the mount
  effect fetches the employee list and page 0; choosing \<open>e\<close> empties the
  paginated source and loads \<open>e\<close>'s transactions; choosing "All Employees"
  empties the by-employee source, fetches the employee list again and takes
  page 0 from the cache. The run is one the page allows, and the network sees
  exactly four requests, page 0 once.
\<close>

theorem end_to_end_scenario:
  assumes emps: "net Employees None = Inr es" and mem: "e \<in> set (employees_of_json es)"
    and eid: "emp_id e \<noteq> emp_id EMPTY_EMPLOYEE"
    and p0: "net PaginatedTransactions (page_request 0) = Inr j0"
    and tx: "net Transactions (employee_params (emp_id e)) = Inr t"
  shows "reachable net (run_events net [Mount, Select (Some e), Select (Some EMPTY_EMPLOYEE)] app_init)
   \<and> paginatedTransactions (run_events net [Mount, Select (Some e)] app_init) = None
   \<and> transactionsByEmployee (run_events net [Mount, Select (Some e)] app_init) = Some (txns_of_json t)
   \<and> requests (run_events net [Mount, Select (Some e), Select (Some EMPTY_EMPLOYEE)] app_init)
       = [(Employees, None), (PaginatedTransactions, page_request 0),
          (Transactions, employee_params (emp_id e)), (Employees, None)]
   \<and> transactionsByEmployee (run_events net [Mount, Select (Some e), Select (Some EMPTY_EMPLOYEE)] app_init) = None
   \<and> paginatedTransactions (run_events net [Mount, Select (Some e), Select (Some EMPTY_EMPLOYEE)] app_init)
       = Some (page_of_json j0)"
proof -
  let ?s1 = "ui_step net app_init Mount"
  let ?s2 = "ui_step net ?s1 (Select (Some e))"
  let ?s3 = "ui_step net ?s2 (Select (Some EMPTY_EMPLOYEE))"
  note m = scenario_mount [OF emps p0]
  note c = scenario_select [where s = "?s1" and net = net, OF m(3) eid tx]
  note a = scenario_select_all [where s = "?s2" and net = net, OF c(3) c(4) emps]
  have r1: "reachable net ?s1" by (rule reachable.step [OF reachable.init]) (simp add: ui_enabled_def)
  have "ui_enabled ?s1 (Select (Some e))" using m(1) mem by (simp add: ui_enabled_def select_items_def)
  with r1 have r2: "reachable net ?s2" by (rule reachable.step)
  have "ui_enabled ?s2 (Select (Some EMPTY_EMPLOYEE))" using c(1) m(1) by (simp add: ui_enabled_def select_items_def)
  with r2 have "reachable net ?s3" by (rule reachable.step)
  then show ?thesis using m c a by (simp add: run_events_def)
qed

theorem end_to_end_scenario_witness:
  "demo_backend Employees None = Inr (JArr [employee_to_json ada])
   \<and> ada \<in> set (employees_of_json (JArr [employee_to_json ada]))
   \<and> emp_id ada \<noteq> emp_id EMPTY_EMPLOYEE
   \<and> demo_backend PaginatedTransactions (page_request 0) = Inr (page_to_json (page_of sample_pages 0))
   \<and> demo_backend Transactions (employee_params (emp_id ada)) = Inr (JArr [JNum 42])
   \<and> requests (run_events demo_backend [Mount, Select (Some ada), Select (Some EMPTY_EMPLOYEE)] app_init)
       = [(Employees, None), (PaginatedTransactions, page_request 0),
          (Transactions, employee_params ''e1''), (Employees, None)]"
proof -
  have h: "demo_backend Employees None = Inr (JArr [employee_to_json ada])"
    "ada \<in> set (employees_of_json (JArr [employee_to_json ada]))"
    "emp_id ada \<noteq> emp_id EMPTY_EMPLOYEE"
    "demo_backend PaginatedTransactions (page_request 0) = Inr (page_to_json (page_of sample_pages 0))"
    "demo_backend Transactions (employee_params (emp_id ada)) = Inr (JArr [JNum 42])"
    by code_simp+
  have "emp_id ada = ''e1''" by (simp add: ada_def)
  then show ?thesis using h end_to_end_scenario [OF h] by simp
qed

end
