(* ===== verification/Async.thy ===== *)
theory Async
  imports Coordinator
begin

text \<open>
  Overlapping requests. The handlers of src/src/App.tsx are \<open>async\<close>: each one
  runs synchronously up to its first \<open>await\<close> on the network and is resumed
  when the response arrives, while the user may click again in between. This
  theory splits every network call of the fetch layer at its suspension point
  (the \<open>await fakeFetch\<close> of useCustomFetch.ts, lines 32 and 47) into a
  synchronous beginning and a resumption, and every handler into the part
  before its first suspension and continuations (\<open>task\<close>) that hold the
  values their closures captured: \<open>loadAllTransactions\<close> calls the
  \<open>fetchAll\<close> of the render in which it was invoked, with that render's
  \<open>paginatedTransactions\<close> (usePaginatedTransactions.ts, line 47).
  A cache hit and every state merge are synchronous, so they happen inside one
  step. The step relation \<open>areach\<close> interleaves UI events, enabled by the
  same guards as in the sequential model, with the resumption of any pending
  continuation, in any order.
\<close>

section \<open>Suspended continuations\<close>

text \<open>
  What is waiting for the network: \<open>loadAllTransactions\<close> after it asked for
  the employees (with the snapshot its \<open>fetchAll\<close> closure holds), the
  accumulator's page request, and a \<open>fetchById\<close> request, each with its parameters.
\<close>

datatype task =
    AwaitEmployees "page_resp option"
  | AwaitPage "json option"
  | AwaitById "json option"

record async_state = app_state +
  pending :: "task list"

section \<open>The fetch layer, split at the network call\<close>

text \<open>
  \<open>fetchWithCache\<close> up to \<open>await fakeFetch\<close>: the executor's
  \<open>setLoading(true)\<close>, the key, the cache lookup; a truthy hit is parsed and
  returned at once (\<open>Some\<close> result, flag cleared), a miss sends the request
  and suspends (\<open>None\<close>).
\<close>

definition fetchWithCache_begin ::
  "hook \<Rightarrow> network \<Rightarrow> endpoint \<Rightarrow> json option \<Rightarrow> 's fetch_state_scheme
   \<Rightarrow> json option option \<times> 's fetch_state_scheme" where
  "fetchWithCache_begin h net endpoint params s =
     (let s1 = s\<lparr>loading := (loading s)(h := True)\<rparr>;
          cacheKey = getCacheKey endpoint params
      in (case cache_get (cache s1) cacheKey of
            Some cacheResponse \<Rightarrow>
              (if cacheResponse \<noteq> [] then (Some (json_parse cacheResponse), s1\<lparr>loading := (loading s1)(h := False)\<rparr>)
               else (None, snd (fakeFetch net endpoint params s1)))
          | None \<Rightarrow> (None, snd (fakeFetch net endpoint params s1))))"

text \<open>
  The rest of \<open>fetchWithCache\<close> when the response arrives: store a success
  under the key in the cache as it is now, clear the flag, return the result or \<open>null\<close>.
\<close>

definition fetchWithCache_resume ::
  "hook \<Rightarrow> network \<Rightarrow> endpoint \<Rightarrow> json option \<Rightarrow> 's fetch_state_scheme
   \<Rightarrow> json option \<times> 's fetch_state_scheme" where
  "fetchWithCache_resume h net endpoint params s =
     (case net endpoint params of
        Inl _ \<Rightarrow> (None, s\<lparr>loading := (loading s)(h := False)\<rparr>)
      | Inr result \<Rightarrow>
          (Some result,
           s\<lparr>cache := cache_set (cache s) (getCacheKey endpoint params) (stringify result),
             loading := (loading s)(h := False)\<rparr>))"

definition fetchWithoutCache_begin ::
  "hook \<Rightarrow> network \<Rightarrow> endpoint \<Rightarrow> json option \<Rightarrow> 's fetch_state_scheme \<Rightarrow> 's fetch_state_scheme" where
  "fetchWithoutCache_begin h net endpoint params s =
     snd (fakeFetch net endpoint params (s\<lparr>loading := (loading s)(h := True)\<rparr>))"

definition fetchWithoutCache_resume ::
  "hook \<Rightarrow> network \<Rightarrow> endpoint \<Rightarrow> json option \<Rightarrow> 's fetch_state_scheme
   \<Rightarrow> json option \<times> 's fetch_state_scheme" where
  "fetchWithoutCache_resume h net endpoint params s =
     ((case net endpoint params of Inl _ \<Rightarrow> None | Inr v \<Rightarrow> Some v),
      s\<lparr>loading := (loading s)(h := False)\<rparr>)"

section \<open>The handlers, split at their awaits\<close>

text \<open>
  \<open>fetchAll\<close> of the render whose state was \<open>snapshot\<close>: the guard and the
  page parameter come from the snapshot, the updater applies to the state at
  the time the response is merged.
\<close>

definition fetchAll_begin :: "network \<Rightarrow> page_resp option \<Rightarrow> 'a async_state_scheme \<Rightarrow> 'a async_state_scheme" where
  "fetchAll_begin net snapshot s =
     (if at_end snapshot then s
      else
        (case fetchWithCache_begin PaginatedHook net PaginatedTransactions (page_params snapshot) s of
           (Some response, s') \<Rightarrow>
             s'\<lparr>paginatedTransactions :=
                  merge_page (map_option page_of_json response) (paginatedTransactions s')\<rparr>
         | (None, s') \<Rightarrow> s'\<lparr>pending := pending s' @ [AwaitPage (page_params snapshot)]\<rparr>))"

definition page_done :: "network \<Rightarrow> json option \<Rightarrow> 'a async_state_scheme \<Rightarrow> 'a async_state_scheme" where
  "page_done net params s =
     (case fetchWithCache_resume PaginatedHook net PaginatedTransactions params s of
        (response, s') \<Rightarrow>
          s'\<lparr>paginatedTransactions := merge_page (map_option page_of_json response) (paginatedTransactions s')\<rparr>)"

text \<open>\<open>loadAllTransactions\<close> up to \<open>await employeeUtils.fetchAll()\<close>, and its continuation.\<close>

definition loadAll_begin :: "network \<Rightarrow> 'a async_state_scheme \<Rightarrow> 'a async_state_scheme" where
  "loadAll_begin net s =
     (let s1 = s\<lparr>isLoading := True\<rparr>;
          s2 = invalidate_by_employee s1;
          s3 = fetchWithoutCache_begin EmployeesHook net Employees None s2
      in s3\<lparr>pending := pending s3 @ [AwaitEmployees (paginatedTransactions s)]\<rparr>)"

definition employees_done :: "network \<Rightarrow> page_resp option \<Rightarrow> 'a async_state_scheme \<Rightarrow> 'a async_state_scheme" where
  "employees_done net snapshot s =
     (case fetchWithoutCache_resume EmployeesHook net Employees None s of
        (r, s') \<Rightarrow>
          fetchAll_begin net snapshot (s'\<lparr>employees := map_option employees_of_json r, isLoading := False\<rparr>))"

text \<open>\<open>fetchById\<close> up to its network call, and its continuation.\<close>

definition fetchById_begin :: "network \<Rightarrow> string \<Rightarrow> 'a async_state_scheme \<Rightarrow> 'a async_state_scheme" where
  "fetchById_begin net employeeId s =
     (case fetchWithCache_begin ByEmployeeHook net Transactions (employee_params employeeId) s of
        (Some r, s') \<Rightarrow> s'\<lparr>transactionsByEmployee := map_option txns_of_json r\<rparr>
      | (None, s') \<Rightarrow> s'\<lparr>pending := pending s' @ [AwaitById (employee_params employeeId)]\<rparr>)"

definition byId_done :: "network \<Rightarrow> json option \<Rightarrow> 'a async_state_scheme \<Rightarrow> 'a async_state_scheme" where
  "byId_done net params s =
     (case fetchWithCache_resume ByEmployeeHook net Transactions params s of
        (r, s') \<Rightarrow> s'\<lparr>transactionsByEmployee := map_option txns_of_json r\<rparr>)"

definition loadByEmployee_begin :: "network \<Rightarrow> string \<Rightarrow> 'a async_state_scheme \<Rightarrow> 'a async_state_scheme" where
  "loadByEmployee_begin net employeeId s = fetchById_begin net employeeId (invalidateData s)"

definition mount_begin :: "network \<Rightarrow> 'a async_state_scheme \<Rightarrow> 'a async_state_scheme" where
  "mount_begin net s =
     (if employees s = None \<and> \<not> loading s EmployeesHook then loadAll_begin net s else s)"

definition onChange_begin :: "network \<Rightarrow> employee option \<Rightarrow> 'a async_state_scheme \<Rightarrow> 'a async_state_scheme" where
  "onChange_begin net newValue s =
     (case newValue of
        None \<Rightarrow> s
      | Some v \<Rightarrow>
          (if emp_id v = emp_id EMPTY_EMPLOYEE
           then loadAll_begin net (s\<lparr>currentEmployee := None\<rparr>)
           else loadByEmployee_begin net (emp_id v) (s\<lparr>currentEmployee := Some v\<rparr>)))"

definition viewMore_begin :: "network \<Rightarrow> 'a async_state_scheme \<Rightarrow> 'a async_state_scheme" where
  "viewMore_begin net s =
     (case currentEmployee s of
        None \<Rightarrow> loadAll_begin net s
      | Some e \<Rightarrow> loadByEmployee_begin net (emp_id e) s)"

definition ui_start :: "network \<Rightarrow> 'a async_state_scheme \<Rightarrow> ui_event \<Rightarrow> 'a async_state_scheme" where
  "ui_start net s ev =
     (case ev of Mount \<Rightarrow> mount_begin net s | Select v \<Rightarrow> onChange_begin net v s | ViewMore \<Rightarrow> viewMore_begin net s)"

section \<open>Interleavings\<close>

definition resume_task :: "network \<Rightarrow> task \<Rightarrow> 'a async_state_scheme \<Rightarrow> 'a async_state_scheme" where
  "resume_task net t s =
     (case t of
        AwaitEmployees snapshot \<Rightarrow> employees_done net snapshot s
      | AwaitPage params \<Rightarrow> page_done net params s
      | AwaitById params \<Rightarrow> byId_done net params s)"

text \<open>The response to the \<open>i\<close>-th pending request arrives.\<close>

definition resume :: "network \<Rightarrow> nat \<Rightarrow> 'a async_state_scheme \<Rightarrow> 'a async_state_scheme" where
  "resume net i s =
     resume_task net (pending s ! i) (s\<lparr>pending := take i (pending s) @ drop (Suc i) (pending s)\<rparr>)"

definition async_init :: async_state where
  "async_init =
     \<lparr>cache = Some [], loading = (\<lambda>_. False), requests = [], paginatedTransactions = None,
      employees = None, transactionsByEmployee = None, isLoading = False, currentEmployee = None,
      pending = []\<rparr>"

inductive areach :: "network \<Rightarrow> async_state \<Rightarrow> bool" for net where
  init: "areach net async_init"
| event: "areach net s \<Longrightarrow> ui_enabled s ev \<Longrightarrow> areach net (ui_start net s ev)"
| response: "areach net s \<Longrightarrow> i < length (pending s) \<Longrightarrow> areach net (resume net i s)"

text \<open>Schedules: a UI event, or the response to a pending request.\<close>

datatype sched = Ev ui_event | Resp nat

fun sched_ok :: "network \<Rightarrow> async_state \<Rightarrow> sched list \<Rightarrow> bool" where
  "sched_ok net s [] = True"
| "sched_ok net s (Ev ev # xs) = (ui_enabled s ev \<and> sched_ok net (ui_start net s ev) xs)"
| "sched_ok net s (Resp i # xs) = (i < length (pending s) \<and> sched_ok net (resume net i s) xs)"

fun run_sched :: "network \<Rightarrow> sched list \<Rightarrow> async_state \<Rightarrow> async_state" where
  "run_sched net [] s = s"
| "run_sched net (Ev ev # xs) s = run_sched net xs (ui_start net s ev)"
| "run_sched net (Resp i # xs) s = run_sched net xs (resume net i s)"

text \<open>
  Letting every pending request complete, oldest first, with fuel; the
  weight of the pending continuations bounds the number of responses still to come.
\<close>

fun settle :: "network \<Rightarrow> nat \<Rightarrow> 'a async_state_scheme \<Rightarrow> 'a async_state_scheme" where
  "settle net 0 s = s"
| "settle net (Suc n) s = (if pending s = [] then s else settle net n (resume net 0 s))"

fun task_weight :: "task \<Rightarrow> nat" where
  "task_weight (AwaitEmployees _) = 2"
| "task_weight (AwaitPage _) = 1"
| "task_weight (AwaitById _) = 1"

definition weight :: "task list \<Rightarrow> nat" where
  "weight ts = sum_list (map task_weight ts)"

text \<open>
  A session on the example backend of the coordinator: the mount, the employee
  list and the first page arrive, then "View More" is clicked and the employee
  list arrives again, so that the request for page 1 is in flight.
\<close>

definition sample_session :: "sched list" where
  "sample_session = [Ev Mount, Resp 0, Resp 0, Ev ViewMore, Resp 0]"

text \<open>The hook whose executor a pending request belongs to.\<close>

fun task_hook :: "task \<Rightarrow> hook" where
  "task_hook (AwaitEmployees _) = EmployeesHook"
| "task_hook (AwaitPage _) = PaginatedHook"
| "task_hook (AwaitById _) = ByEmployeeHook"

fun is_employees_task :: "task \<Rightarrow> bool" where
  "is_employees_task (AwaitEmployees _) = True"
| "is_employees_task _ = False"

text \<open>
  The flags never claim more than is in flight: a hook's loading flag is set
  only while one of its requests is pending, and \<open>isLoading\<close> only while a
  \<open>loadAllTransactions\<close> waits for the employees. (The converse fails:
  \<open>loading_cleared_in_flight\<close>.)
\<close>

definition flags_inv :: "'a async_state_scheme \<Rightarrow> bool" where
  "flags_inv s \<longleftrightarrow>
     (\<forall>h. loading s h \<longrightarrow> h \<in> task_hook ` set (pending s))
     \<and> (isLoading s \<longrightarrow> (\<exists>t \<in> set (pending s). is_employees_task t))"

text \<open>A property of the cache that storing any successful response keeps.\<close>

definition cache_closed :: "network \<Rightarrow> (cache_ref \<Rightarrow> bool) \<Rightarrow> bool" where
  "cache_closed net P \<longleftrightarrow>
     (\<forall>c e p r. P c \<longrightarrow> net e p = Inr r \<longrightarrow> P (cache_set c (getCacheKey e p) (stringify r)))"

section \<open>The split is faithful\<close>


lemma fetchWithCache_split:
  "fetchWithCache h net e p s =
     (case fetchWithCache_begin h net e p s of
        (Some r, s') \<Rightarrow> (r, s')
      | (None, s') \<Rightarrow> fetchWithCache_resume h net e p s')"
  by (auto simp: fetchWithCache_def fetchWithCache_begin_def fetchWithCache_resume_def
      wrappedRequest_def fetch_and_store_def fakeFetch_def Let_def
      split: option.splits sum.splits)

lemma fetchWithoutCache_split:
  "fetchWithoutCache h net e p s =
     fetchWithoutCache_resume h net e p (fetchWithoutCache_begin h net e p s)"
  by (simp add: fetchWithoutCache_def fetchWithoutCache_begin_def fetchWithoutCache_resume_def
      wrappedRequest_def fakeFetch_def split: sum.splits)

lemma pending_update_same [simp]: "pending s = ts \<Longrightarrow> s\<lparr>pending := ts\<rparr> = s"
  by auto

lemma settle_Nil [simp]: "pending s = [] \<Longrightarrow> settle net n s = s"
  by (cases n) simp_all

lemma pending_fetchWithCache_begin [simp]:
  "pending (snd (fetchWithCache_begin h net e p s)) = pending s"
  by (auto simp: fetchWithCache_begin_def fakeFetch_def Let_def split: option.splits)

lemma pending_fetchWithCache_resume [simp]:
  "pending (snd (fetchWithCache_resume h net e p s)) = pending s"
  by (auto simp: fetchWithCache_resume_def split: sum.splits)

lemma pending_fetchWithoutCache [simp]:
  "pending (fetchWithoutCache_begin h net e p s) = pending s"
  "pending (snd (fetchWithoutCache_resume h net e p s)) = pending s"
  "paginatedTransactions (fetchWithoutCache_begin h net e p s) = paginatedTransactions s"
  "paginatedTransactions (snd (fetchWithoutCache_resume h net e p s)) = paginatedTransactions s"
  by (simp_all add: fetchWithoutCache_begin_def fetchWithoutCache_resume_def fakeFetch_def)

lemma weight_simps [simp]:
  "weight [] = 0"
  "weight (t # ts) = task_weight t + weight ts"
  "weight (xs @ ys) = weight xs + weight ys"
  by (simp_all add: weight_def)

lemma weight_remove:
  "i < length ts \<Longrightarrow> weight (take i ts @ drop (Suc i) ts) + task_weight (ts ! i) = weight ts"
proof -
  assume "i < length ts"
  then have "weight ts = weight (take i ts @ ts ! i # drop (Suc i) ts)" by (simp add: id_take_nth_drop [symmetric])
  then show ?thesis by (simp add: weight_def)
qed

lemma weight_Nil_iff [simp]: "weight ts = 0 \<longleftrightarrow> ts = []"
proof -
  have "\<And>t. task_weight t \<noteq> 0" by (case_tac t) simp_all
  then show ?thesis by (cases ts) (simp_all add: weight_def)
qed

lemma fetchWithCache_begin_pending:
  "fetchWithCache_begin h net e p s = (r, s') \<Longrightarrow> pending s' = pending s"
  by (metis pending_fetchWithCache_begin snd_conv)

lemma pending_fetchAll_begin:
  "weight (pending (fetchAll_begin net P s)) \<le> Suc (weight (pending s))"
  by (auto simp: fetchAll_begin_def dest: fetchWithCache_begin_pending split: prod.splits option.splits)

lemma pending_done:
  "pending (page_done net p s) = pending s"
  "pending (byId_done net p s) = pending s"
  "weight (pending (employees_done net P s)) \<le> Suc (weight (pending s))"
  by (simp_all add: page_done_def byId_done_def employees_done_def case_prod_beta
      order_trans [OF pending_fetchAll_begin])

lemma resume_task_weight:
  "weight (pending (resume_task net t s)) < task_weight t + weight (pending s)"
proof -
  have "\<And>P. weight (pending (employees_done net P s)) < Suc (Suc (weight (pending s)))"
    using pending_done(3) less_Suc_eq_le by blast
  then show ?thesis by (cases t) (simp_all add: resume_task_def pending_done)
qed

lemma weight_resume:
  assumes "i < length (pending s)"
  shows "weight (pending (resume net i s)) < weight (pending s)"
proof -
  let ?r = "take i (pending s) @ drop (Suc i) (pending s)"
  have "weight ?r + task_weight (pending s ! i) = weight (pending s)"
    using assms by (rule weight_remove)
  then show ?thesis
    using resume_task_weight [of net "pending s ! i" "s\<lparr>pending := ?r\<rparr>"]
    by (simp add: resume_def)
qed

lemma settle_weight:
  "weight (pending s) \<le> n \<Longrightarrow> pending (settle net n s) = []"
proof (induction n arbitrary: s)
  case 0
  then show ?case by simp
next
  case (Suc n)
  show ?case
  proof (cases "pending s = []")
    case False
    then have "weight (pending (resume net 0 s)) \<le> n"
      using Suc.prems weight_resume [of 0 s net] by simp
    with False Suc.IH show ?thesis by simp
  qed simp
qed


section \<open>Cache consistency under interleavings\<close>


lemma cache_begin [simp]:
  "cache (snd (fetchWithCache_begin h net e p s)) = cache s"
  "cache (fetchWithoutCache_begin h net e p s) = cache s"
  "cache (snd (fetchWithoutCache_resume h net e p s)) = cache s"
  by (auto simp: fetchWithCache_begin_def fetchWithoutCache_begin_def fetchWithoutCache_resume_def
      fakeFetch_def Let_def split: option.splits)

lemma fetchWithCache_resume_closed:
  "cache_closed net P \<Longrightarrow> P (cache s) \<Longrightarrow> P (cache (snd (fetchWithCache_resume h net e p s)))"
  by (auto simp: fetchWithCache_resume_def cache_closed_def split: sum.splits)

lemma fetchWithCache_begin_cache:
  "fetchWithCache_begin h net e p s = (r, s') \<Longrightarrow> cache s' = cache s"
  by (metis cache_begin(1) snd_conv)

lemma closed_fetchAll_begin: "P (cache s) \<Longrightarrow> P (cache (fetchAll_begin net Q s))"
  by (auto simp: fetchAll_begin_def dest: fetchWithCache_begin_cache split: prod.splits option.splits)

lemma closed_done:
  "cache_closed net P \<Longrightarrow> P (cache s) \<Longrightarrow> P (cache (page_done net p s))"
  "cache_closed net P \<Longrightarrow> P (cache s) \<Longrightarrow> P (cache (byId_done net p s))"
  "P (cache s) \<Longrightarrow> P (cache (employees_done net Q s))"
  by (simp_all add: page_done_def byId_done_def employees_done_def case_prod_beta
      fetchWithCache_resume_closed closed_fetchAll_begin)

lemma closed_resume:
  "cache_closed net P \<Longrightarrow> P (cache s) \<Longrightarrow> P (cache (resume net i s))"
  by (cases "pending s ! i") (simp_all add: resume_def resume_task_def closed_done)

lemma closed_ui_start: "P (cache s) \<Longrightarrow> P (cache (ui_start net s ev))"
  by (cases ev) (auto simp: ui_start_def mount_begin_def onChange_begin_def viewMore_begin_def
      loadAll_begin_def loadByEmployee_begin_def fetchById_begin_def invalidateData_def
      invalidate_by_employee_def Let_def dest: fetchWithCache_begin_cache
      split: option.splits prod.splits)

text \<open>Every cache property that the empty cache has and that storing a response keeps is an invariant.\<close>

lemma areach_cache_closed:
  assumes "cache_closed net P" and "P (Some [])" and "areach net s"
  shows "P (cache s)"
  using assms(3)
proof (induction rule: areach.induct)
  case init
  show ?case using assms(2) by (simp add: async_init_def)
qed (simp_all add: closed_ui_start closed_resume [OF assms(1)])


lemma cache_closed_consistent: "cache_closed net (cache_consistent net)"
  by (auto simp: cache_closed_def cache_consistent_set)

section \<open>Loading flags\<close>

lemma set_remove_nth:
  "i < length xs \<Longrightarrow> u \<in> set xs \<Longrightarrow> u \<noteq> xs ! i \<Longrightarrow> u \<in> set (take i xs @ drop (Suc i) xs)"
  by (metis Un_iff id_take_nth_drop set_ConsD set_append)

lemma fwc_begin_fields:
  "fetchWithCache_begin h net e p s = (Some r, s') \<Longrightarrow>
     loading s' = (loading s)(h := False) \<and> pending s' = pending s \<and> isLoading s' = isLoading s"
  "fetchWithCache_begin h net e p s = (None, s') \<Longrightarrow>
     loading s' = (loading s)(h := True) \<and> pending s' = pending s \<and> isLoading s' = isLoading s"
  by (auto simp: fetchWithCache_begin_def fakeFetch_def Let_def split: option.splits if_splits)

lemma flags_fetchAll_begin: "flags_inv s \<Longrightarrow> flags_inv (fetchAll_begin net P s)"
  by (auto simp: fetchAll_begin_def flags_inv_def dest!: fwc_begin_fields split: prod.splits option.splits if_split_asm)

lemma flags_fetchById_begin: "flags_inv s \<Longrightarrow> flags_inv (fetchById_begin net i s)"
  by (auto simp: fetchById_begin_def flags_inv_def dest!: fwc_begin_fields split: prod.splits option.splits if_split_asm)

lemma flags_fields [simp]:
  "flags_inv (s\<lparr>currentEmployee := c\<rparr>) = flags_inv s"
  "flags_inv (s\<lparr>paginatedTransactions := pt\<rparr>) = flags_inv s"
  "flags_inv (s\<lparr>transactionsByEmployee := tb\<rparr>) = flags_inv s"
  by (simp_all add: flags_inv_def)

lemma flags_loadAll_begin: "flags_inv s \<Longrightarrow> flags_inv (loadAll_begin net s)"
  by (auto simp: loadAll_begin_def invalidate_by_employee_def fetchWithoutCache_begin_def fakeFetch_def
      Let_def flags_inv_def)

lemma flags_ui_start: "flags_inv s \<Longrightarrow> flags_inv (ui_start net s ev)"
  by (cases ev) (auto simp: ui_start_def mount_begin_def onChange_begin_def viewMore_begin_def
      loadByEmployee_begin_def invalidateData_def flags_loadAll_begin flags_fetchById_begin
      split: option.splits)


lemma flags_remove:
  assumes "flags_inv s" and "i < length (pending s)"
  shows "flags_inv (s\<lparr>pending := take i (pending s) @ drop (Suc i) (pending s),
           loading := (loading s)(task_hook (pending s ! i) := False),
           isLoading := isLoading s \<and> \<not> is_employees_task (pending s ! i)\<rparr>)"
proof -
  let ?t = "pending s ! i" and ?r = "take i (pending s) @ drop (Suc i) (pending s)"
  have keep: "\<And>u. u \<in> set (pending s) \<Longrightarrow> u \<noteq> ?t \<Longrightarrow> u \<in> set ?r"
    using assms(2) by (rule set_remove_nth)
  have "h \<in> task_hook ` set ?r" if h1: "h \<noteq> task_hook ?t" and h2: "loading s h" for h
  proof -
    obtain u where "u \<in> set (pending s)" "task_hook u = h"
      using assms(1) h2 unfolding flags_inv_def by blast
    with h1 keep show ?thesis by blast
  qed
  moreover have "\<exists>u \<in> set ?r. is_employees_task u" if l1: "isLoading s" and l2: "\<not> is_employees_task ?t"
  proof -
    obtain u where "u \<in> set (pending s)" "is_employees_task u"
      using assms(1) l1 unfolding flags_inv_def by blast
    with l2 keep show ?thesis by metis
  qed
  ultimately show ?thesis unfolding flags_inv_def by auto
qed

lemma flags_page_done:
  "flags_inv (s\<lparr>loading := (loading s)(PaginatedHook := False)\<rparr>) \<Longrightarrow> flags_inv (page_done net p s)"
  by (simp add: page_done_def fetchWithCache_resume_def flags_inv_def split: sum.splits)

lemma flags_byId_done:
  "flags_inv (s\<lparr>loading := (loading s)(ByEmployeeHook := False)\<rparr>) \<Longrightarrow> flags_inv (byId_done net p s)"
  by (simp add: byId_done_def fetchWithCache_resume_def flags_inv_def split: sum.splits)

lemma flags_employees_done:
  "flags_inv (s\<lparr>loading := (loading s)(EmployeesHook := False), isLoading := False\<rparr>) \<Longrightarrow>
   flags_inv (employees_done net P s)"
  unfolding employees_done_def fetchWithoutCache_resume_def case_prod_beta
  by (rule flags_fetchAll_begin) (simp add: flags_inv_def)

lemma flags_resume:
  assumes "flags_inv s" and "i < length (pending s)"
  shows "flags_inv (resume net i s)"
  using flags_remove [OF assms]
  by (cases "pending s ! i")
    (simp_all add: resume_def resume_task_def flags_page_done flags_byId_done flags_employees_done)


lemma flags_settle: "flags_inv s \<Longrightarrow> flags_inv (settle net n s)"
proof (induction n arbitrary: s)
  case (Suc n)
  then show ?case by (simp add: flags_resume)
qed simp

lemma areach_flags: "areach net s \<Longrightarrow> flags_inv s"
proof (induction rule: areach.induct)
  case init
  show ?case by (simp add: async_init_def flags_inv_def)
qed (simp_all add: flags_ui_start flags_resume)

section \<open>Runs of schedules\<close>

lemma areach_settle: "areach net s \<Longrightarrow> areach net (settle net n s)"
proof (induction n arbitrary: s)
  case (Suc n)
  then show ?case by (auto intro: areach.response)
qed simp

lemma sched_areach: "areach net s \<Longrightarrow> sched_ok net s xs \<Longrightarrow> areach net (run_sched net xs s)"
proof (induction xs arbitrary: s)
  case (Cons x xs)
  then show ?case by (cases x) (auto intro: areach.intros)
qed simp

section \<open>What still holds under every interleaving\<close>



text \<open>
  C11. Under every interleaving of clicks and responses the
  cache agrees with the network: a response is stored only under its own
  request's key, whatever has happened since the request was sent. So the
  cache never serves a wrong answer, even when requests overlap.
\<close>

theorem areach_cache_consistent: "areach net s \<Longrightarrow> cache_consistent net (cache s)"
  by (rule areach_cache_closed [OF cache_closed_consistent]) (simp_all add: cache_consistent_empty)

theorem areach_cache_consistent_witness:
  "areach demo_backend (run_sched demo_backend sample_session async_init)
   \<and> cache_consistent demo_backend (cache (run_sched demo_backend sample_session async_init))"
proof -
  have "sched_ok demo_backend async_init sample_session" by code_simp
  then have r: "areach demo_backend (run_sched demo_backend sample_session async_init)"
    by (rule sched_areach [OF areach.init])
  then show ?thesis using areach_cache_consistent [OF r] by simp
qed



end
