(* ===== verification/Races.thy ===== *)
theory Races
  imports Async
begin

text \<open>
  Races of the asynchronous program (theory \<open>Async\<close>), each shown twice: as
  a property of the handler continuations for every state, and as a concrete
  run of \<open>areach\<close> on the example backend, found by evaluating schedules.
  Two "View More" clicks during the employee fetch duplicate a page; a page
  response after the user chose an employee repopulates the invalidated
  accumulator; the executor's loading flag does not count overlapping
  requests.
\<close>

section \<open>Schedules\<close>

text \<open>
  Three schedules on the example backend of the coordinator. Two "View More"
  clicks while the employee list is loading; a selection of an employee while
  the first page is in flight; and the first schedule stopped before its last
  response.
\<close>

definition double_view_more :: "sched list" where
  "double_view_more = [Ev Mount, Resp 0, Resp 0, Ev ViewMore, Ev ViewMore, Resp 0, Resp 0, Resp 0, Resp 0]"

definition stale_select :: "sched list" where
  "stale_select = [Ev Mount, Resp 0, Ev (Select (Some ada)), Resp 1, Resp 0]"

definition early_reset :: "sched list" where
  "early_reset = [Ev Mount, Resp 0, Resp 0, Ev ViewMore, Ev ViewMore, Resp 0, Resp 0, Resp 0]"

text \<open>A state with the first sample page loaded, nothing in flight, and an empty cache.\<close>

definition first_page_state :: async_state where
  "first_page_state = async_init\<lparr>paginatedTransactions := Some (page_of sample_pages 0)\<rparr>"


text \<open>
  A backend with a second employee, and a schedule in which the user chooses
  Ada and then Grace before either list has arrived, and Grace's list arrives first.
\<close>

definition grace :: employee where
  "grace = \<lparr>emp_id = ''e2'', firstName = ''Grace'', lastName = ''Hopper''\<rparr>"

definition two_backend :: network where
  "two_backend e p =
     (case e of
        Employees \<Rightarrow> Inr (JArr [employee_to_json ada, employee_to_json grace])
      | PaginatedTransactions \<Rightarrow> paged_backend sample_pages e p
      | Transactions \<Rightarrow>
          (if p = employee_params ''e1'' then Inr (JArr [JNum 42])
           else if p = employee_params ''e2'' then Inr (JArr [JNum 7])
           else Inl (FetchFailed ''unknown employee'')))"

definition out_of_order :: "sched list" where
  "out_of_order = [Ev Mount, Resp 0, Resp 0, Ev (Select (Some ada)), Ev (Select (Some grace)), Resp 1, Resp 0]"

section \<open>Races\<close>

text \<open>
  C12. Two calls of \<open>fetchAll\<close> from the same render (the same
  snapshot of the accumulator) overlap: both miss the cache, both request the
  same page, and both updaters append it, so the page's data appears twice.
\<close>

theorem fetchAll_overlap_duplicates:
  assumes "paginatedTransactions s = Some P" and "\<not> at_end (Some P)"
    and "cache_get (cache s) (getCacheKey PaginatedTransactions (page_params (Some P))) = None"
    and "net PaginatedTransactions (page_params (Some P)) = Inr (page_to_json r)"
    and "pending s = []"
  shows "paginatedTransactions (resume net 0 (resume net 0 (fetchAll_begin net (Some P) (fetchAll_begin net (Some P) s))))
           = Some \<lparr>data = data P @ data r @ data r,
                   nextPage = (if nextPage r = None then Some (-1) else nextPage r)\<rparr>"
  using assms
  by (simp add: fetchAll_begin_def fetchWithCache_begin_def fakeFetch_def Let_def resume_def resume_task_def
      page_done_def fetchWithCache_resume_def page_of_json_page_to_json merge_page_def)

theorem fetchAll_overlap_duplicates_witness:
  "paginatedTransactions first_page_state = Some (page_of sample_pages 0)
   \<and> pending first_page_state = []
   \<and> \<not> at_end (Some (page_of sample_pages 0))
   \<and> cache_get (cache first_page_state)
       (getCacheKey PaginatedTransactions (page_params (Some (page_of sample_pages 0)))) = None
   \<and> paged_backend sample_pages PaginatedTransactions (page_params (Some (page_of sample_pages 0)))
       = Inr (page_to_json (page_of sample_pages 1))
   \<and> paginatedTransactions (resume (paged_backend sample_pages) 0 (resume (paged_backend sample_pages) 0
       (fetchAll_begin (paged_backend sample_pages) (Some (page_of sample_pages 0))
         (fetchAll_begin (paged_backend sample_pages) (Some (page_of sample_pages 0)) first_page_state))))
     = Some \<lparr>data = [JNum 1, JNum 2, JNum 3, JNum 3], nextPage = Some 2\<rparr>"
proof -
  have h: "paginatedTransactions first_page_state = Some (page_of sample_pages 0)
     \<and> pending first_page_state = []
     \<and> \<not> at_end (Some (page_of sample_pages 0))
     \<and> cache_get (cache first_page_state)
       (getCacheKey PaginatedTransactions (page_params (Some (page_of sample_pages 0)))) = None
     \<and> paged_backend sample_pages PaginatedTransactions (page_params (Some (page_of sample_pages 0)))
       = Inr (page_to_json (page_of sample_pages 1))"
    by code_simp
  have "data (page_of sample_pages 0) @ data (page_of sample_pages 1) @ data (page_of sample_pages 1)
        = [JNum 1, JNum 2, JNum 3, JNum 3]"
    and "nextPage (page_of sample_pages 1) = Some 2"
    by code_simp+
  then show ?thesis
    using h fetchAll_overlap_duplicates [of first_page_state "page_of sample_pages 0"
        "paged_backend sample_pages" "page_of sample_pages 1"] by simp
qed

text \<open>
  C13. A page response is merged whatever happened since its request
  was sent: after the accumulator has been invalidated (the user chose an
  employee), the stale response becomes the whole paginated state again, next
  to the employee's transactions, and the filter still names the employee.
\<close>

theorem page_done_no_cancel:
  assumes "net PaginatedTransactions p = Inr j" and "paginatedTransactions s = None"
  shows "paginatedTransactions (page_done net p s) = Some (page_of_json j)
         \<and> transactionsByEmployee (page_done net p s) = transactionsByEmployee s
         \<and> currentEmployee (page_done net p s) = currentEmployee s"
  using assms by (simp add: page_done_def fetchWithCache_resume_def merge_page_def)

theorem page_done_no_cancel_witness:
  "paged_backend sample_pages PaginatedTransactions (page_request 0) = Inr (page_to_json (page_of sample_pages 0))
   \<and> paginatedTransactions (async_init\<lparr>transactionsByEmployee := Some [JNum 42], currentEmployee := Some ada\<rparr>) = None
   \<and> paginatedTransactions (page_done (paged_backend sample_pages) (page_request 0)
        (async_init\<lparr>transactionsByEmployee := Some [JNum 42], currentEmployee := Some ada\<rparr>))
      = Some (page_of sample_pages 0)
   \<and> transactionsByEmployee (page_done (paged_backend sample_pages) (page_request 0)
        (async_init\<lparr>transactionsByEmployee := Some [JNum 42], currentEmployee := Some ada\<rparr>)) = Some [JNum 42]"
proof -
  have n: "paged_backend sample_pages PaginatedTransactions (page_request 0) = Inr (page_to_json (page_of sample_pages 0))"
    by code_simp
  have p: "paginatedTransactions (async_init\<lparr>transactionsByEmployee := Some [JNum 42], currentEmployee := Some ada\<rparr>) = None"
    by (simp add: async_init_def)
  show ?thesis
    using page_done_no_cancel [where net = "paged_backend sample_pages" and p = "page_request 0", OF n p] n p by (simp add: page_of_json_page_to_json)
qed

text \<open>
  C8. The spec's double-click race, on the example backend. The
  "View More" button is disabled only while the paginated hook is loading, so
  during the employee fetch of \<open>loadAllTransactions\<close> it stays enabled; two
  clicks there capture the same accumulator, both request page 1, and the
  list shows page 1 twice.
\<close>

theorem double_view_more_race:
  "areach demo_backend (run_sched demo_backend double_view_more async_init)
   \<and> paginatedTransactions (run_sched demo_backend double_view_more async_init)
       = Some \<lparr>data = [JNum 1, JNum 2, JNum 3, JNum 3], nextPage = Some 2\<rparr>
   \<and> filter (\<lambda>x. x = (PaginatedTransactions, page_request 1))
       (requests (run_sched demo_backend double_view_more async_init))
       = [(PaginatedTransactions, page_request 1), (PaginatedTransactions, page_request 1)]"
proof -
  have "sched_ok demo_backend async_init double_view_more" by code_simp
  then have "areach demo_backend (run_sched demo_backend double_view_more async_init)"
    by (rule sched_areach [OF areach.init])
  moreover have "paginatedTransactions (run_sched demo_backend double_view_more async_init)
       = Some \<lparr>data = [JNum 1, JNum 2, JNum 3, JNum 3], nextPage = Some 2\<rparr>"
    by code_simp
  moreover have "filter (\<lambda>x. x = (PaginatedTransactions, page_request 1))
       (requests (run_sched demo_backend double_view_more async_init))
       = [(PaginatedTransactions, page_request 1), (PaginatedTransactions, page_request 1)]"
    by code_simp
  ultimately show ?thesis by blast
qed

text \<open>
  C9. Mutual exclusion of the two sources, an invariant of
  every sequential run, fails under interleaving: choosing an employee while
  the first page is in flight ends with both sources loaded, the employee
  selected, and the unified view showing all transactions.
\<close>

theorem stale_select_breaks_exclusion:
  "areach demo_backend (run_sched demo_backend stale_select async_init)
   \<and> paginatedTransactions (run_sched demo_backend stale_select async_init) = Some (page_of sample_pages 0)
   \<and> transactionsByEmployee (run_sched demo_backend stale_select async_init) = Some [JNum 42]
   \<and> currentEmployee (run_sched demo_backend stale_select async_init) = Some ada
   \<and> transactions (run_sched demo_backend stale_select async_init) = Some [JNum 1, JNum 2]
   \<and> pending (run_sched demo_backend stale_select async_init) = []"
proof -
  have "sched_ok demo_backend async_init stale_select" by code_simp
  then have "areach demo_backend (run_sched demo_backend stale_select async_init)"
    by (rule sched_areach [OF areach.init])
  moreover have "paginatedTransactions (run_sched demo_backend stale_select async_init) = Some (page_of sample_pages 0)
     \<and> transactionsByEmployee (run_sched demo_backend stale_select async_init) = Some [JNum 42]
     \<and> currentEmployee (run_sched demo_backend stale_select async_init) = Some ada
     \<and> transactions (run_sched demo_backend stale_select async_init) = Some [JNum 1, JNum 2]
     \<and> pending (run_sched demo_backend stale_select async_init) = []"
    by code_simp
  ultimately show ?thesis by blast
qed

text \<open>
  C14. The executor's loading flag is a boolean, not a count: when
  the first of two overlapping page requests completes it is cleared while the
  second is still in flight, and "View More" is enabled again.
\<close>

theorem loading_cleared_in_flight:
  "areach demo_backend (run_sched demo_backend early_reset async_init)
   \<and> pending (run_sched demo_backend early_reset async_init) = [AwaitPage (page_request 1)]
   \<and> \<not> loading (run_sched demo_backend early_reset async_init) PaginatedHook
   \<and> ui_enabled (run_sched demo_backend early_reset async_init) ViewMore"
proof -
  have "sched_ok demo_backend async_init early_reset" by code_simp
  then have "areach demo_backend (run_sched demo_backend early_reset async_init)"
    by (rule sched_areach [OF areach.init])
  moreover have "pending (run_sched demo_backend early_reset async_init) = [AwaitPage (page_request 1)]
     \<and> \<not> loading (run_sched demo_backend early_reset async_init) PaginatedHook
     \<and> ui_enabled (run_sched demo_backend early_reset async_init) ViewMore"
    by code_simp
  ultimately show ?thesis by blast
qed

text \<open>
  C10. The by-employee list is written by whichever response comes
  last, not by the one for the employee currently selected: after choosing
  Ada and then Grace, with Grace's list arriving first, the filter shows
  Grace, nothing is in flight any more, and the page lists Ada's transactions.
\<close>

theorem byId_out_of_order:
  "areach two_backend (run_sched two_backend out_of_order async_init)
   \<and> currentEmployee (run_sched two_backend out_of_order async_init) = Some grace
   \<and> transactions (run_sched two_backend out_of_order async_init) = Some [JNum 42]
   \<and> two_backend Transactions (employee_params (emp_id grace)) = Inr (JArr [JNum 7])
   \<and> pending (run_sched two_backend out_of_order async_init) = []"
proof -
  have "sched_ok two_backend async_init out_of_order" by code_simp
  then have "areach two_backend (run_sched two_backend out_of_order async_init)"
    by (rule sched_areach [OF areach.init])
  moreover have "currentEmployee (run_sched two_backend out_of_order async_init) = Some grace
     \<and> transactions (run_sched two_backend out_of_order async_init) = Some [JNum 42]
     \<and> two_backend Transactions (employee_params (emp_id grace)) = Inr (JArr [JNum 7])
     \<and> pending (run_sched two_backend out_of_order async_init) = []"
    by code_simp
  ultimately show ?thesis by blast
qed

end
